theory Spec2Isabelle
  imports Complex_Main "HOL-Library.Word"
begin

section \<open>Numbers and strings of the host language\<close>

text \<open>
  A JavaScript number is modelled as a real number or the value NaN, which the code tests
  for explicitly. The rounding of IEEE doubles and the infinities are not modelled: the
  arithmetic below is exact.
\<close>

datatype number = NaN | Num real

fun isNaN :: "number \<Rightarrow> bool" where
  "isNaN NaN = True"
| "isNaN (Num _) = False"

fun num_add :: "number \<Rightarrow> number \<Rightarrow> number" where
  "num_add (Num a) (Num b) = Num (a + b)"
| "num_add _ _ = NaN"

fun num_sub :: "number \<Rightarrow> number \<Rightarrow> number" where
  "num_sub (Num a) (Num b) = Num (a - b)"
| "num_sub _ _ = NaN"

fun num_mul :: "number \<Rightarrow> number \<Rightarrow> number" where
  "num_mul (Num a) (Num b) = Num (a * b)"
| "num_mul _ _ = NaN"

text \<open>Division is only ever used with the divisor 2.\<close>

fun num_half :: "number \<Rightarrow> number" where
  "num_half (Num a) = Num (a / 2)"
| "num_half NaN = NaN"



fun Math_abs :: "number \<Rightarrow> number" where
  "Math_abs (Num a) = Num \<bar>a\<bar>"
| "Math_abs NaN = NaN"

text \<open>\<^verbatim>\<open>Math.round\<close> rounds to the nearest integer, a half upwards.\<close>

fun Math_round :: "number \<Rightarrow> number" where
  "Math_round (Num a) = Num (of_int \<lfloor>a + 1 / 2\<rfloor>)"
| "Math_round NaN = NaN"

fun Math_max :: "number \<Rightarrow> number \<Rightarrow> number" where
  "Math_max (Num a) (Num b) = Num (max a b)"
| "Math_max _ _ = NaN"

text \<open>
  A value is truthy unless it is \<^verbatim>\<open>undefined\<close>, \<^verbatim>\<open>null\<close>, 0 or NaN;
  \<open>x || d\<close> is \<open>x\<close> when \<open>x\<close> is truthy and \<open>d\<close> otherwise.
\<close>

fun truthy :: "number option \<Rightarrow> bool" where
  "truthy None = False"
| "truthy (Some NaN) = False"
| "truthy (Some (Num a)) = (a \<noteq> 0)"

definition or_default :: "number option \<Rightarrow> number \<Rightarrow> number option" where
  "or_default x d = (if truthy x then x else Some d)"

text \<open>
  A string is the list of its UTF-16 code units. Every character the spacing tables name
  is a single code unit, so a character is a one-element list.
\<close>

type_synonym jsstring = "nat list"

definition str :: "string \<Rightarrow> jsstring" where
  "str = map of_char"

text \<open>\<^verbatim>\<open>s.includes(t)\<close>: \<open>t\<close> occurs in \<open>s\<close> as a contiguous run.\<close>

fun str_includes :: "jsstring \<Rightarrow> jsstring \<Rightarrow> bool" where
  "str_includes [] t = (t = [])"
| "str_includes (c # cs) t = (take (length t) (c # cs) = t \<or> str_includes cs t)"

section \<open>The font model\<close>

text \<open>
  The path commands of the parsing library, by their type tags: \<^verbatim>\<open>M\<close> and \<^verbatim>\<open>L\<close> carry
  \<open>x y\<close>, \<^verbatim>\<open>Q\<close> carries \<open>x1 y1 x y\<close>, \<^verbatim>\<open>C\<close> carries \<open>x1 y1 x2 y2 x y\<close> and \<^verbatim>\<open>Z\<close>
  carries nothing. Coordinates of a parsed outline are numbers, never NaN.
\<close>

datatype command =
    MoveTo real real
  | LineTo real real
  | QuadTo real real real real
  | CurveTo real real real real real real
  | ClosePath

record BoundingBox =
  x1 :: number
  y1 :: number
  x2 :: number
  y2 :: number

text \<open>
  A glyph object. The type declarations of the repository are not among its sources; the
  fields are those the code reads and writes. \<open>name\<close> and \<open>unicode\<close> may be missing. The
  path is always present, as the data model has it, so the test \<^verbatim>\<open>!glyph.path\<close> of
  \<^verbatim>\<open>setGlyphSB\<close> never fires. \<open>xMin\<close> .. \<open>yMax\<close> are the cached bounds that the code deletes.
\<close>

record Glyph =
  name :: "jsstring option"
  unicode :: "nat option"
  path :: "command list"
  advanceWidth :: number
  leftSideBearing :: "number option"
  xMin :: "number option"
  xMax :: "number option"
  yMin :: "number option"
  yMax :: "number option"

text \<open>The \<^verbatim>\<open>{lsb, rsb}\<close> pair of a master letter and of a metrics query.\<close>

record SB =
  lsb :: number
  rsb :: number

text \<open>
  The metadata of the font object that export preparation writes: the English entries of
  \<^verbatim>\<open>font.names\<close> and the tables \<^verbatim>\<open>post\<close>, \<^verbatim>\<open>os2\<close> and \<^verbatim>\<open>hhea\<close>, each field of which may be
  missing; of the layout tables only their presence matters.
\<close>

record Names =
  fontFamily :: "jsstring option"
  fontSubfamily :: "jsstring option"
  fullName :: "jsstring option"
  postScriptName :: "jsstring option"
  uniqueID :: "jsstring option"
  nameVersion :: "jsstring option"

record PostTable =
  post_version :: "number option"
  italicAngle :: "number option"
  underlinePosition :: "number option"
  underlineThickness :: "number option"
  isFixedPitch :: "number option"
  minMemType42 :: "number option"
  maxMemType42 :: "number option"
  minMemType1 :: "number option"
  maxMemType1 :: "number option"

record OS2Table =
  os2_version :: "number option"
  usWeightClass :: "number option"
  usWidthClass :: "number option"
  ulCodePageRange1 :: "number option"
  ulCodePageRange2 :: "number option"
  sTypoAscender :: "number option"
  sTypoDescender :: "number option"
  sTypoLineGap :: "number option"
  usWinAscent :: "number option"
  usWinDescent :: "number option"

record HheaTable =
  hhea_ascender :: "number option"
  hhea_descender :: "number option"
  hhea_lineGap :: "number option"

record Tables =
  tbl_kern :: bool
  tbl_gpos :: bool
  tbl_gsub :: bool
  tbl_gdef :: bool
  tbl_post :: "PostTable option"
  tbl_os2 :: "OS2Table option"
  tbl_hhea :: "HheaTable option"

text \<open>
  The font object, as far as the code uses it: the glyph set, the character map, the
  declared vertical metrics and the metadata. Glyph objects are shared and mutated in place, so a glyph is referred to by its
  index in the glyph set, and \<open>cmap\<close> gives the index of the glyph object that
  \<^verbatim>\<open>font.charToGlyph\<close> returns for a string (\<open>None\<close> when it returns no object). Two
  strings may resolve to the same glyph object.
\<close>

record Font =
  glyphs :: "Glyph list"
  cmap :: "jsstring \<Rightarrow> nat option"
  ascender :: "number option"
  descender :: "number option"
  unitsPerEm :: number
  names :: Names
  tables :: Tables

definition charToGlyph :: "Font \<Rightarrow> jsstring \<Rightarrow> nat option" where
  "charToGlyph font c =
     (case cmap font c of
        None \<Rightarrow> None
      | Some i \<Rightarrow> if i < length (glyphs font) then Some i else None)"

text \<open>
  \<^verbatim>\<open>glyph.getBoundingBox()\<close> belongs to the parsing library, which is not part of the
  repository. It is a parameter \<open>bb\<close> of every function that calls it: the bounding box as
  a function of the glyph's current path, computed afresh at each call.
\<close>

type_synonym bbox_fun = "command list \<Rightarrow> BoundingBox"

section \<open>The mutation primitive\<close>

text \<open>\<^verbatim>\<open>cmd.x += shift\<close>, \<^verbatim>\<open>cmd.x1 += shift\<close>, \<^verbatim>\<open>cmd.x2 += shift\<close>, each where the command has the field.\<close>

fun shiftCmd :: "real \<Rightarrow> command \<Rightarrow> command" where
  "shiftCmd s (MoveTo x y) = MoveTo (x + s) y"
| "shiftCmd s (LineTo x y) = LineTo (x + s) y"
| "shiftCmd s (QuadTo qx1 qy1 x y) = QuadTo (qx1 + s) qy1 (x + s) y"
| "shiftCmd s (CurveTo cx1 cy1 cx2 cy2 x y) = CurveTo (cx1 + s) cy1 (cx2 + s) cy2 (x + s) y"
| "shiftCmd s ClosePath = ClosePath"

definition isSpace :: "Glyph \<Rightarrow> bool" where
  "isSpace glyph \<longleftrightarrow>
     name glyph = Some (str ''space'') \<or> unicode glyph = Some 32 \<or>
     (case name glyph of None \<Rightarrow> False | Some nm \<Rightarrow> str_includes nm (str ''space''))"

text \<open>The left-hand step of \<^verbatim>\<open>setGlyphSB\<close>: the glyph and the bounds after it.\<close>

definition shiftLeft :: "bbox_fun \<Rightarrow> Glyph \<Rightarrow> BoundingBox \<Rightarrow> number option \<Rightarrow> Glyph \<times> BoundingBox" where
  "shiftLeft bb glyph bounds lsb' =
     (case lsb' of
        None \<Rightarrow> (glyph, bounds)
      | Some l \<Rightarrow>
          (case num_sub l (x1 bounds) of
             NaN \<Rightarrow> (glyph, bounds)
           | Num shift \<Rightarrow>
               if \<bar>shift\<bar> > 1 / 1000 then
                 (let g = glyph\<lparr>path := map (shiftCmd shift) (path glyph),
                                 leftSideBearing := Some l,
                                 xMin := None, xMax := None, yMin := None, yMax := None\<rparr>
                  in (g, bb (path g)))
               else (glyph, bounds)))"

definition setAdvance :: "Glyph \<Rightarrow> BoundingBox \<Rightarrow> number option \<Rightarrow> Glyph" where
  "setAdvance glyph bounds rsb' =
     (case rsb' of
        None \<Rightarrow> glyph
      | Some r \<Rightarrow>
          if \<not> isNaN (x2 bounds) then glyph\<lparr>advanceWidth := num_add (x2 bounds) r\<rparr>
          else glyph)"

definition setGlyphSB :: "bbox_fun \<Rightarrow> Font \<Rightarrow> jsstring \<Rightarrow> number option \<Rightarrow> number option \<Rightarrow> Font" where
  "setGlyphSB bb font glyphName lsb' rsb' =
     (case charToGlyph font glyphName of
        None \<Rightarrow> font
      | Some i \<Rightarrow>
          (let glyph = glyphs font ! i in
           if isSpace glyph then font
           else
             (let bounds = bb (path glyph) in
              if isNaN (x1 bounds) \<or> isNaN (x2 bounds) then font
              else
                (let (g1, bounds1) = shiftLeft bb glyph bounds lsb';
                     g2 = setAdvance g1 bounds1 rsb'
                 in font\<lparr>glyphs := (glyphs font)[i := g2]\<rparr>))))"

section \<open>Side bearings as the code measures them\<close>

text \<open>\<^verbatim>\<open>lsb = box.x1\<close> and \<^verbatim>\<open>rsb = glyph.advanceWidth - box.x2\<close>, on the current path.\<close>

definition lsbOf :: "bbox_fun \<Rightarrow> Glyph \<Rightarrow> number" where
  "lsbOf bb g = x1 (bb (path g))"

definition rsbOf :: "bbox_fun \<Rightarrow> Glyph \<Rightarrow> number" where
  "rsbOf bb g = num_sub (advanceWidth g) (x2 (bb (path g)))"

text \<open>A measured value lies within \<open>eps\<close> of a target; NaN lies near nothing.\<close>

fun near :: "real \<Rightarrow> number \<Rightarrow> real \<Rightarrow> bool" where
  "near eps (Num a) t = (\<bar>a - t\<bar> \<le> eps)"
| "near eps NaN t = False"

text \<open>A path has an outline when some command of it draws, that is, carries coordinates.\<close>

fun draws :: "command \<Rightarrow> bool" where
  "draws ClosePath = False"
| "draws _ = True"

definition outlined :: "command list \<Rightarrow> bool" where
  "outlined p = list_ex draws p"

text \<open>
  The one property of the library's bounding box that the spacing code relies on: moving
  every coordinate of an outline by \<open>s\<close> along the horizontal axis moves the box's
  horizontal bounds by \<open>s\<close>. A path without an outline has no point to move, and the
  property says nothing about it.
\<close>

definition translates :: "bbox_fun \<Rightarrow> bool" where
  "translates bb \<longleftrightarrow>
     (\<forall>p s. outlined p \<longrightarrow>
        x1 (bb (map (shiftCmd s) p)) = num_add (x1 (bb p)) (Num s) \<and>
        x2 (bb (map (shiftCmd s) p)) = num_add (x2 (bb p)) (Num s))"

text \<open>
  A non-degenerate glyph: its path has an outline and the horizontal bounds of its box are
  numbers.
\<close>

definition nondegenerate :: "bbox_fun \<Rightarrow> Glyph \<Rightarrow> bool" where
  "nondegenerate bb g \<longleftrightarrow>
     outlined (path g) \<and> \<not> isNaN (x1 (bb (path g))) \<and> \<not> isNaN (x2 (bb (path g)))"

text \<open>A glyph that the primitive will move: not the space, and non-degenerate.\<close>

definition spaceable :: "bbox_fun \<Rightarrow> Glyph \<Rightarrow> bool" where
  "spaceable bb g \<longleftrightarrow> \<not> isSpace g \<and> nondegenerate bb g"

text \<open>
  The glyph has the bearings \<open>(l, r)\<close>: its left bearing is within the primitive's epsilon of \<open>l\<close>
  and its right bearing is \<open>r\<close>.
\<close>

definition hasBearings :: "bbox_fun \<Rightarrow> Glyph \<Rightarrow> real \<Rightarrow> real \<Rightarrow> bool" where
  "hasBearings bb g l r \<longleftrightarrow> near (1 / 1000) (lsbOf bb g) l \<and> rsbOf bb g = Num r"

section \<open>A concrete bounding box\<close>

text \<open>
  The box of the points that the commands name. For an outline of straight segments this
  is its bounding box; for a path without points it is the zero box, which is what the
  empty-glyph test of \<^verbatim>\<open>getCharMetrics\<close> expects of the library.
\<close>

fun xsOf :: "command \<Rightarrow> real list" where
  "xsOf (MoveTo x y) = [x]"
| "xsOf (LineTo x y) = [x]"
| "xsOf (QuadTo qx1 qy1 x y) = [qx1, x]"
| "xsOf (CurveTo cx1 cy1 cx2 cy2 x y) = [cx1, cx2, x]"
| "xsOf ClosePath = []"

fun ysOf :: "command \<Rightarrow> real list" where
  "ysOf (MoveTo x y) = [y]"
| "ysOf (LineTo x y) = [y]"
| "ysOf (QuadTo qx1 qy1 x y) = [qy1, y]"
| "ysOf (CurveTo cx1 cy1 cx2 cy2 x y) = [cy1, cy2, y]"
| "ysOf ClosePath = []"

definition pointsBox :: bbox_fun where
  "pointsBox p =
     (let xs = concat (map xsOf p); ys = concat (map ysOf p) in
      if xs = [] then \<lparr>x1 = Num 0, y1 = Num 0, x2 = Num 0, y2 = Num 0\<rparr>
      else \<lparr>x1 = Num (Min (set xs)), y1 = Num (Min (set ys)),
            x2 = Num (Max (set xs)), y2 = Num (Max (set ys))\<rparr>)"

section \<open>Diacritic propagation and the two spacing methods\<close>

text \<open>
  \<^verbatim>\<open>DIACRITICS_MAP\<close>, by code units: each base letter (65 is \<open>A\<close>, 97 is \<open>a\<close>) with its
  accented variants in the order of the source. A lookup of a string that is no key gives
  \<^verbatim>\<open>undefined\<close>.
\<close>

definition DIACRITICS_codes :: "(nat \<times> nat list) list" where
  "DIACRITICS_codes =
     [(65, [193, 192, 194, 196, 195, 197, 256, 258, 260, 461, 506]),
      (66, [7682, 7684]),
      (67, [199, 262, 264, 266, 268]),
      (68, [270, 272, 7692, 7690, 7696]),
      (69, [201, 200, 202, 203, 274, 276, 278, 280, 282]),
      (70, [7710]),
      (71, [284, 286, 288, 290, 486]),
      (72, [292, 294, 7714, 7716]),
      (73, [205, 204, 206, 207, 296, 298, 300, 302, 304]),
      (74, [308]),
      (75, [310, 488, 7728, 7730]),
      (76, [313, 315, 317, 319, 321, 7734, 7736]),
      (77, [7742, 7744, 7746]),
      (78, [209, 323, 325, 327, 7748, 7750]),
      (79, [211, 210, 212, 214, 213, 216, 332, 334, 336, 465, 510]),
      (80, [7764, 7766]),
      (81, []),
      (82, [340, 342, 344, 7768, 7770]),
      (83, [346, 348, 350, 352, 536, 7776, 7778]),
      (84, [354, 356, 358, 538, 7786, 7788]),
      (85, [218, 217, 219, 220, 360, 362, 364, 366, 368, 370, 467, 469, 471, 473, 475]),
      (86, [7804, 7806]),
      (87, [372, 7808, 7810, 7812]),
      (88, [7818, 7820]),
      (89, [221, 374, 376, 562, 7822, 7922]),
      (90, [377, 379, 381, 7826]),
      (97, [225, 224, 226, 228, 227, 229, 257, 259, 261, 462, 507]),
      (98, [7683, 7685]),
      (99, [231, 263, 265, 267, 269]),
      (100, [271, 273, 7693, 7691, 7697]),
      (101, [233, 232, 234, 235, 275, 277, 279, 281, 283]),
      (102, [7711]),
      (103, [285, 287, 289, 291, 487]),
      (104, [293, 295, 7715, 7717]),
      (105, [237, 236, 238, 239, 297, 299, 301, 303, 305]),
      (106, [309]),
      (107, [311, 489, 7729, 7731]),
      (108, [314, 316, 318, 320, 322, 7735, 7737]),
      (109, [7743, 7745, 7747]),
      (110, [241, 324, 326, 328, 7749, 7751]),
      (111, [243, 242, 244, 246, 245, 248, 333, 335, 337, 466, 511]),
      (112, [7765, 7767]),
      (113, []),
      (114, [341, 343, 345, 7769, 7771]),
      (115, [347, 349, 351, 353, 537, 7777, 7779]),
      (116, [355, 357, 359, 539, 7787, 7789]),
      (117, [250, 249, 251, 252, 361, 363, 365, 367, 369, 371, 468, 470, 472, 474, 476]),
      (118, [7805, 7807]),
      (119, [373, 7809, 7811, 7813]),
      (120, [7819, 7821]),
      (121, [253, 255, 375, 563, 7823, 7923]),
      (122, [378, 380, 382, 7827])]"

definition DIACRITICS_MAP :: "jsstring \<Rightarrow> jsstring list option" where
  "DIACRITICS_MAP = map_of (map (\<lambda>(b, vs). ([b], map (\<lambda>v. [v]) vs)) DIACRITICS_codes)"

text \<open>The settings of a method: the four masters and the overrides.
  The overrides are the entries of the object in the order in which \<^verbatim>\<open>Object.keys\<close>
  lists them; each side of an entry is a number or \<^verbatim>\<open>null\<close>.\<close>

record SpacingSettings =
  master_H :: SB
  master_O :: SB
  master_n :: SB
  master_o :: SB
  overrides :: "(jsstring \<times> number option \<times> number option) list"

type_synonym TracySettings = SpacingSettings
type_synonym SousaSettings = SpacingSettings

text \<open>\<^verbatim>\<open>applyRule\<close>: the base letter, then each of its variants with the same pair.\<close>

definition applyRule :: "bbox_fun \<Rightarrow> Font \<Rightarrow> jsstring \<Rightarrow> number option \<Rightarrow> number option \<Rightarrow> Font" where
  "applyRule bb font char ruleLsb ruleRsb =
     (let font1 = setGlyphSB bb font char ruleLsb ruleRsb in
      case DIACRITICS_MAP char of
        None \<Rightarrow> font1
      | Some related \<Rightarrow>
          if length related > 0 then
            foldl (\<lambda>f childChar. setGlyphSB bb f childChar ruleLsb ruleRsb) font1 related
          else font1)"

text \<open>The loop over \<^verbatim>\<open>Object.keys(overrides)\<close>, shared by both methods.\<close>

definition applyOverrides :: "bbox_fun \<Rightarrow> Font \<Rightarrow> (jsstring \<times> number option \<times> number option) list \<Rightarrow> Font" where
  "applyOverrides bb font ovs =
     foldl (\<lambda>f char. case map_of ovs char of
                         None \<Rightarrow> f
                       | Some (l, r) \<Rightarrow> setGlyphSB bb f char l r)
       font (map fst ovs)"

text \<open>
  The constants of \<^verbatim>\<open>applyTracyMethod\<close>, each a function of the settings (the decimal
  factors are exact here; \<^verbatim>\<open>valMoreO\<close> is never used), and the calls of \<^verbatim>\<open>applyRule\<close>
  that the method makes, in the order of the source: the four masters, the upper case, the
  lower case.
\<close>

definition valH :: "TracySettings \<Rightarrow> number" where
  "valH s = lsb (master_H s)"

definition valO :: "TracySettings \<Rightarrow> number" where
  "valO s = lsb (master_O s)"

definition valMoreH :: "TracySettings \<Rightarrow> number" where
  "valMoreH s = Math_round (num_mul (valH s) (Num (115 / 100)))"

definition valLessH :: "TracySettings \<Rightarrow> number" where
  "valLessH s = Math_round (num_mul (valH s) (Num (85 / 100)))"

definition valMin :: "TracySettings \<Rightarrow> number" where
  "valMin s = Math_max (Num 5) (Math_round (num_mul (valH s) (Num (25 / 100))))"

definition valVisual :: "TracySettings \<Rightarrow> number" where
  "valVisual s = Math_round (num_half (num_add (valH s) (valO s)))"

definition nStem :: "TracySettings \<Rightarrow> number" where
  "nStem s = lsb (master_n s)"

definition nArch :: "TracySettings \<Rightarrow> number" where
  "nArch s = rsb (master_n s)"

definition oRound :: "TracySettings \<Rightarrow> number" where
  "oRound s = lsb (master_o s)"

definition valMoreN :: "TracySettings \<Rightarrow> number" where
  "valMoreN s = Math_round (num_mul (nStem s) (Num (115 / 100)))"

definition valLessO :: "TracySettings \<Rightarrow> number" where
  "valLessO s = Math_round (num_mul (oRound s) (Num (9 / 10)))"

definition valLowMin :: "TracySettings \<Rightarrow> number" where
  "valLowMin s = Math_max (Num 5) (Math_round (num_mul (nStem s) (Num (25 / 100))))"

definition valLowVisual :: "TracySettings \<Rightarrow> number" where
  "valLowVisual s = Math_round (num_half (num_add (nStem s) (oRound s)))"

definition tracyRules :: "TracySettings \<Rightarrow> (jsstring \<times> number \<times> number) list" where
  "tracyRules s =
       [(str ''H'', lsb (master_H s), rsb (master_H s)),
        (str ''O'', lsb (master_O s), rsb (master_O s)),
        (str ''n'', lsb (master_n s), rsb (master_n s)),
        (str ''o'', lsb (master_o s), rsb (master_o s)),
        (str ''A'', valMin s, valMin s),
        (str ''B'', valH s, valLessH s),
        (str ''C'', valO s, valLessH s),
        (str ''D'', valH s, valO s),
        (str ''E'', valH s, valLessH s),
        (str ''F'', valH s, valLessH s),
        (str ''G'', valO s, valMoreH s),
        (str ''H'', valH s, valH s),
        (str ''I'', valH s, valH s),
        (str ''J'', valMin s, valH s),
        (str ''K'', valH s, valMin s),
        (str ''L'', valH s, valMin s),
        (str ''M'', valMoreH s, valMoreH s),
        (str ''N'', valMoreH s, valMoreH s),
        (str ''O'', valO s, valO s),
        (str ''P'', valH s, valO s),
        (str ''Q'', valO s, valO s),
        (str ''R'', valH s, valMin s),
        (str ''S'', valVisual s, valVisual s),
        (str ''T'', valMin s, valMin s),
        (str ''U'', valH s, valMoreH s),
        (str ''V'', valMin s, valMin s),
        (str ''W'', valMin s, valMin s),
        (str ''X'', valMin s, valMin s),
        (str ''Y'', valMin s, valMin s),
        (str ''Z'', valLessH s, valLessH s),
        (str ''b'', nStem s, oRound s),
        (str ''c'', oRound s, valLessO s),
        (str ''d'', oRound s, nStem s),
        (str ''e'', oRound s, valLessO s),
        (str ''f'', valLowMin s, valLowMin s),
        (str ''g'', oRound s, nStem s),
        (str ''h'', valMoreN s, nArch s),
        (str ''i'', valMoreN s, nStem s),
        (str ''j'', nStem s, nStem s),
        (str ''k'', nStem s, valLowMin s),
        (str ''l'', valMoreN s, nStem s),
        (str ''m'', nStem s, nArch s),
        (str ''n'', nStem s, nArch s),
        (str ''n'', nStem s, nArch s),
        (str ''o'', oRound s, oRound s),
        (str ''p'', valMoreN s, oRound s),
        (str ''q'', oRound s, nStem s),
        (str ''r'', nStem s, valLowMin s),
        (str ''s'', valLessO s, valLessO s),
        (str ''t'', nStem s, valLowMin s),
        (str ''u'', nStem s, nStem s),
        (str ''v'', valLowMin s, valLowMin s),
        (str ''w'', valLowMin s, valLowMin s),
        (str ''x'', valLowVisual s, valLowVisual s),
        (str ''y'', valLowMin s, valLowMin s),
        (str ''z'', valLowVisual s, valLowVisual s),
        (str ''a'', oRound s, nStem s)]"

definition applyTracyMethod :: "bbox_fun \<Rightarrow> Font \<Rightarrow> TracySettings \<Rightarrow> Font" where
  "applyTracyMethod bb font settings =
     applyOverrides bb
       (foldl (\<lambda>f (char, l, r). applyRule bb f char (Some l) (Some r)) font (tracyRules settings))
       (overrides settings)"

text \<open>The edge categories \<^verbatim>\<open>'S'\<close>, \<^verbatim>\<open>'R'\<close>, \<^verbatim>\<open>'A'\<close>, \<^verbatim>\<open>'V'\<close> and the table \<^verbatim>\<open>TOPOLOGY\<close>.\<close>

datatype topoType = Straight | Round | Arch | Vertex

definition TOPOLOGY :: "(jsstring \<times> topoType \<times> topoType) list" where
  "TOPOLOGY =
     [(str ''A'', (Vertex, Vertex)),
      (str ''B'', (Straight, Round)),
      (str ''C'', (Round, Straight)),
      (str ''D'', (Straight, Round)),
      (str ''E'', (Straight, Straight)),
      (str ''F'', (Straight, Straight)),
      (str ''G'', (Round, Straight)),
      (str ''H'', (Straight, Straight)),
      (str ''I'', (Straight, Straight)),
      (str ''J'', (Vertex, Straight)),
      (str ''K'', (Straight, Vertex)),
      (str ''L'', (Straight, Vertex)),
      (str ''M'', (Straight, Straight)),
      (str ''N'', (Straight, Straight)),
      (str ''O'', (Round, Round)),
      (str ''P'', (Straight, Round)),
      (str ''Q'', (Round, Round)),
      (str ''R'', (Straight, Vertex)),
      (str ''S'', (Vertex, Vertex)),
      (str ''T'', (Vertex, Vertex)),
      (str ''U'', (Straight, Straight)),
      (str ''V'', (Vertex, Vertex)),
      (str ''W'', (Vertex, Vertex)),
      (str ''X'', (Vertex, Vertex)),
      (str ''Y'', (Vertex, Vertex)),
      (str ''Z'', (Vertex, Vertex)),
      (str ''a'', (Round, Straight)),
      (str ''b'', (Straight, Round)),
      (str ''c'', (Round, Round)),
      (str ''d'', (Round, Straight)),
      (str ''e'', (Round, Round)),
      (str ''f'', (Vertex, Vertex)),
      (str ''g'', (Round, Straight)),
      (str ''h'', (Straight, Arch)),
      (str ''i'', (Straight, Straight)),
      (str ''j'', (Straight, Straight)),
      (str ''k'', (Straight, Vertex)),
      (str ''l'', (Straight, Straight)),
      (str ''m'', (Straight, Arch)),
      (str ''n'', (Straight, Arch)),
      (str ''o'', (Round, Round)),
      (str ''p'', (Straight, Round)),
      (str ''q'', (Round, Straight)),
      (str ''r'', (Straight, Vertex)),
      (str ''s'', (Vertex, Vertex)),
      (str ''t'', (Straight, Vertex)),
      (str ''u'', (Straight, Straight)),
      (str ''v'', (Vertex, Vertex)),
      (str ''w'', (Vertex, Vertex)),
      (str ''x'', (Vertex, Vertex)),
      (str ''y'', (Vertex, Vertex)),
      (str ''z'', (Vertex, Vertex))]"

text \<open>
  \<^verbatim>\<open>toUpperCase\<close> and \<^verbatim>\<open>toLowerCase\<close> on the ASCII letters, which are the only strings
  that \<^verbatim>\<open>getValue\<close> is called with.
\<close>

definition toUpperCase :: "jsstring \<Rightarrow> jsstring" where
  "toUpperCase = map (\<lambda>c. if 97 \<le> c \<and> c \<le> 122 then c - 32 else c)"

definition toLowerCase :: "jsstring \<Rightarrow> jsstring" where
  "toLowerCase = map (\<lambda>c. if 65 \<le> c \<and> c \<le> 90 then c + 32 else c)"

definition getValue :: "SousaSettings \<Rightarrow> jsstring \<Rightarrow> topoType \<Rightarrow> number" where
  "getValue s char topo =
     (let isUpper = (char = toUpperCase char \<and> char \<noteq> toLowerCase char) in
      if isUpper then
        (case topo of
           Straight \<Rightarrow> lsb (master_H s)
         | Round \<Rightarrow> lsb (master_O s)
         | Vertex \<Rightarrow> Math_round (num_mul (lsb (master_H s)) (Num (1 / 2)))
         | Arch \<Rightarrow> Num 20)
      else
        (case topo of
           Straight \<Rightarrow> lsb (master_n s)
         | Arch \<Rightarrow> rsb (master_n s)
         | Round \<Rightarrow> lsb (master_o s)
         | Vertex \<Rightarrow> Math_round (num_mul (lsb (master_n s)) (Num (1 / 2)))))"

text \<open>Step 1 of \<^verbatim>\<open>applySousaMethod\<close> for one key of \<^verbatim>\<open>TOPOLOGY\<close>.\<close>

definition sousaStep :: "bbox_fun \<Rightarrow> SousaSettings \<Rightarrow> Font \<Rightarrow> jsstring \<Rightarrow> Font" where
  "sousaStep bb s font char =
     (case map_of TOPOLOGY char of
        None \<Rightarrow> font
      | Some (tleft, tright) \<Rightarrow>
          (let lsb' = getValue s char tleft;
               rsb' = getValue s char tright;
               font1 = setGlyphSB bb font char (Some lsb') (Some rsb')
           in case DIACRITICS_MAP char of
                None \<Rightarrow> font1
              | Some related \<Rightarrow>
                  if length related > 0 then
                    foldl (\<lambda>f childChar. setGlyphSB bb f childChar (Some lsb') (Some rsb')) font1 related
                  else font1))"

definition setMasterSafe :: "bbox_fun \<Rightarrow> SousaSettings \<Rightarrow> Font \<Rightarrow> jsstring \<Rightarrow> SB \<Rightarrow> Font" where
  "setMasterSafe bb s font char val =
     (if map_of (overrides s) char = None then
        setGlyphSB bb font char (Some (lsb val)) (Some (rsb val))
      else font)"

definition applySousaMethod :: "bbox_fun \<Rightarrow> Font \<Rightarrow> SousaSettings \<Rightarrow> Font" where
  "applySousaMethod bb font settings =
     (let f1 = foldl (sousaStep bb settings) font (map fst TOPOLOGY);
          f2 = applyOverrides bb f1 (overrides settings);
          f3 = setMasterSafe bb settings f2 (str ''n'') (master_n settings);
          f4 = setMasterSafe bb settings f3 (str ''o'') (master_o settings);
          f5 = setMasterSafe bb settings f4 (str ''H'') (master_H settings)
      in setMasterSafe bb settings f5 (str ''O'') (master_O settings))"

section \<open>The per-character metrics query\<close>

definition getCharMetrics :: "bbox_fun \<Rightarrow> Font \<Rightarrow> jsstring \<Rightarrow> SB" where
  "getCharMetrics bb font char =
     (case charToGlyph font char of
        None \<Rightarrow> \<lparr>lsb = Num 0, rsb = Num 0\<rparr>
      | Some i \<Rightarrow>
          (let glyph = glyphs font ! i; box = bb (path glyph) in
           if x1 box = Num 0 \<and> x2 box = Num 0 \<and> y1 box = Num 0 \<and> y2 box = Num 0 \<and>
              length (path glyph) = 0
           then \<lparr>lsb = Num 0, rsb = advanceWidth glyph\<rparr>
           else \<lparr>lsb = Math_round (x1 box),
                 rsb = Math_round (num_sub (advanceWidth glyph) (x2 box))\<rparr>))"

section \<open>The methods as sequences of calls of the primitive\<close>

text \<open>
  Both methods are, in the end, a sequence of calls \<^verbatim>\<open>setGlyphSB(font, c, l, r)\<close>. The
  sequence is made explicit here; that the methods run exactly these calls is proved
  below.
\<close>

type_synonym call = "jsstring \<times> number option \<times> number option"

definition run :: "bbox_fun \<Rightarrow> Font \<Rightarrow> call list \<Rightarrow> Font" where
  "run bb font calls = foldl (\<lambda>f (c, l, r). setGlyphSB bb f c l r) font calls"

definition variants :: "jsstring \<Rightarrow> jsstring list" where
  "variants c = (case DIACRITICS_MAP c of None \<Rightarrow> [] | Some vs \<Rightarrow> vs)"

definition ruleCalls :: "jsstring \<times> number \<times> number \<Rightarrow> call list" where
  "ruleCalls = (\<lambda>(c, l, r). (c, Some l, Some r) # map (\<lambda>v. (v, Some l, Some r)) (variants c))"

definition overrideCalls :: "(jsstring \<times> number option \<times> number option) list \<Rightarrow> call list" where
  "overrideCalls ovs =
     concat (map (\<lambda>c. case map_of ovs c of None \<Rightarrow> [] | Some (l, r) \<Rightarrow> [(c, l, r)]) (map fst ovs))"

definition tracyCalls :: "TracySettings \<Rightarrow> call list" where
  "tracyCalls s = concat (map ruleCalls (tracyRules s)) @ overrideCalls (overrides s)"

definition sousaRules :: "SousaSettings \<Rightarrow> (jsstring \<times> number \<times> number) list" where
  "sousaRules s = map (\<lambda>(c, tleft, tright). (c, getValue s c tleft, getValue s c tright)) TOPOLOGY"

definition masterCalls :: "SousaSettings \<Rightarrow> call list" where
  "masterCalls s =
     concat (map (\<lambda>(c, val). if map_of (overrides s) c = None then [(c, Some (lsb val), Some (rsb val))] else [])
       [(str ''n'', master_n s), (str ''o'', master_o s), (str ''H'', master_H s), (str ''O'', master_O s)])"

definition sousaCalls :: "SousaSettings \<Rightarrow> call list" where
  "sousaCalls s = concat (map ruleCalls (sousaRules s)) @ overrideCalls (overrides s) @ masterCalls s"

text \<open>The last call made for a character, and the characters treated after that call.\<close>

definition lastFor :: "jsstring \<Rightarrow> call list \<Rightarrow> (number option \<times> number option) option" where
  "lastFor c calls = map_of (rev calls) c"

definition treatedAfter :: "jsstring \<Rightarrow> call list \<Rightarrow> jsstring list" where
  "treatedAfter c calls = rev (takeWhile (\<lambda>d. d \<noteq> c) (rev (map fst calls)))"

section \<open>The metrics extractor\<close>








section \<open>The binary sanitizer\<close>

text \<open>
  An \<^verbatim>\<open>ArrayBuffer\<close> is the list of its bytes. A read of a \<^verbatim>\<open>DataView\<close> outside the buffer
  throws a \<^verbatim>\<open>RangeError\<close>; \<^verbatim>\<open>getUint16\<close> is big-endian.
\<close>

type_synonym byte = "8 word"

datatype jserror = RangeError | Error jsstring | LibraryError






definition writeVoid :: "byte list \<Rightarrow> nat \<Rightarrow> byte list" where
  "writeVoid d off = d[off := 118, off + 1 := 111, off + 2 := 105, off + 3 := 100]"





section \<open>Export preparation\<close>

text \<open>The white space of \<^verbatim>\<open>trim\<close> and of the pattern \<^verbatim>\<open>\s\<close>, as code units.\<close>

definition isWhiteSpace :: "nat \<Rightarrow> bool" where
  "isWhiteSpace c \<longleftrightarrow>
     c \<in> set [9, 10, 11, 12, 13, 32, 160, 5760, 8232, 8233, 8239, 8287, 12288, 65279] \<or>
     (8192 \<le> c \<and> c \<le> 8202)"

definition trim :: "jsstring \<Rightarrow> jsstring" where
  "trim s = rev (dropWhile isWhiteSpace (rev (dropWhile isWhiteSpace s)))"

definition isAlnum :: "nat \<Rightarrow> bool" where
  "isAlnum c \<longleftrightarrow> (48 \<le> c \<and> c \<le> 57) \<or> (65 \<le> c \<and> c \<le> 90) \<or> (97 \<le> c \<and> c \<le> 122)"

text \<open>The characters that the pattern \<^verbatim>\<open>[^a-zA-Z0-9._]\<close> leaves alone.\<close>

definition isSafeChar :: "nat \<Rightarrow> bool" where
  "isSafeChar c \<longleftrightarrow> isAlnum c \<or> c = 46 \<or> c = 95"

definition hexDigit :: "nat \<Rightarrow> nat" where
  "hexDigit d = (if d < 10 then 48 + d else 55 + d)"

text \<open>\<^verbatim>\<open>n.toString(16).toUpperCase()\<close> and the decimal digits of \<open>n\<close>.\<close>

fun toHex :: "nat \<Rightarrow> jsstring" where
  "toHex n = (if n < 16 then [hexDigit n] else toHex (n div 16) @ [hexDigit (n mod 16)])"

fun toDec :: "nat \<Rightarrow> jsstring" where
  "toDec n = (if n < 10 then [48 + n] else toDec (n div 10) @ [48 + n mod 10])"

declare toHex.simps [simp del] toDec.simps [simp del]

definition padStart4 :: "jsstring \<Rightarrow> jsstring" where
  "padStart4 s = replicate (4 - length s) 48 @ s"

definition gidName :: "nat \<Rightarrow> jsstring" where
  "gidName i = str ''gid'' @ toDec i"

text \<open>The name that the loop gives a glyph whose name is missing or blank.\<close>

definition generatedName :: "nat \<Rightarrow> Glyph \<Rightarrow> jsstring" where
  "generatedName i glyph =
     (case unicode glyph of
        None \<Rightarrow> gidName i
      | Some u \<Rightarrow> if u \<noteq> 0 then str ''uni'' @ padStart4 (toHex u) else gidName i)"

text \<open>The body of the loop of \<^verbatim>\<open>ensureGlyphNames\<close> for the glyph at index \<open>i\<close>.\<close>

definition ensureGlyphName :: "nat \<Rightarrow> Glyph \<Rightarrow> Glyph" where
  "ensureGlyphName i glyph =
     (let name1 =
            (case name glyph of
               None \<Rightarrow> None
             | Some nm \<Rightarrow> if trim nm = [] then None else Some nm);
          name2 = (case name1 of Some nm \<Rightarrow> nm | None \<Rightarrow> generatedName i glyph);
          safeName = map (\<lambda>c. if isSafeChar c then c else 95) name2
      in glyph\<lparr>name := Some (if length safeName = 0 then gidName i else safeName)\<rparr>)"

definition ensureGlyphNames :: "Font \<Rightarrow> Font" where
  "ensureGlyphNames font =
     (if length (glyphs font) = 0 then font
      else font\<lparr>glyphs := map (\<lambda>(i, glyph). ensureGlyphName i glyph) (enumerate 0 (glyphs font))\<rparr>)"

text \<open>\<^verbatim>\<open>prepareFontForExport\<close>; \<open>now\<close> is the value of \<^verbatim>\<open>Date.now()\<close>.\<close>

definition prepareFontForExport :: "nat \<Rightarrow> Font \<Rightarrow> jsstring \<Rightarrow> Font" where
  "prepareFontForExport now font familyName =
     (let nameStr = filter (\<lambda>c. isAlnum c \<or> c = 45 \<or> c = 32) familyName;
          psName = filter (\<lambda>c. \<not> isWhiteSpace c) nameStr
      in font\<lparr>names :=
           \<lparr>fontFamily = Some nameStr, fontSubfamily = Some (str ''Regular''),
            fullName = Some nameStr, postScriptName = Some psName,
            uniqueID = Some (str ''SAAME:'' @ psName @ str '':'' @ toDec now),
            nameVersion = Some (str ''Version 1.0 SAAME'')\<rparr>\<rparr>)"

definition emptyPost :: PostTable where
  "emptyPost =
     \<lparr>post_version = None, italicAngle = None, underlinePosition = None,
      underlineThickness = None, isFixedPitch = None, minMemType42 = None, maxMemType42 = None,
      minMemType1 = None, maxMemType1 = None\<rparr>"

definition emptyOS2 :: OS2Table where
  "emptyOS2 =
     \<lparr>os2_version = None, usWeightClass = None, usWidthClass = None, ulCodePageRange1 = None,
      ulCodePageRange2 = None, sTypoAscender = None, sTypoDescender = None, sTypoLineGap = None,
      usWinAscent = None, usWinDescent = None\<rparr>"

definition emptyHhea :: HheaTable where
  "emptyHhea = \<lparr>hhea_ascender = None, hhea_descender = None, hhea_lineGap = None\<rparr>"

text \<open>Steps 1 to 6 of \<^verbatim>\<open>createFontUrl\<close>: the font as it is handed to the serializer.\<close>

definition prepareExport :: "nat \<Rightarrow> Font \<Rightarrow> jsstring \<Rightarrow> Font" where
  "prepareExport now font familyName =
     (let t1 = (tables font)\<lparr>tbl_kern := False, tbl_gpos := False, tbl_gsub := False, tbl_gdef := False\<rparr>;
          f2 = prepareFontForExport now (font\<lparr>tables := t1\<rparr>) familyName;
          f3 = ensureGlyphNames f2;
          p0 = (case tbl_post t1 of None \<Rightarrow> emptyPost | Some p \<Rightarrow> p);
          p1 = p0\<lparr>post_version := Some (Num 3),
                  italicAngle := or_default (italicAngle p0) (Num 0),
                  underlinePosition := or_default (underlinePosition p0) (Num (- 100)),
                  underlineThickness := or_default (underlineThickness p0) (Num 50),
                  isFixedPitch := or_default (isFixedPitch p0) (Num 0),
                  minMemType42 := Some (Num 0), maxMemType42 := Some (Num 0),
                  minMemType1 := Some (Num 0), maxMemType1 := Some (Num 0)\<rparr>;
          o0 = (case tbl_os2 t1 of None \<Rightarrow> emptyOS2 | Some t \<Rightarrow> t);
          h0 = (case tbl_hhea t1 of None \<Rightarrow> emptyHhea | Some h \<Rightarrow> h);
          asc = (case ascender font of None \<Rightarrow> Num 800 | Some a \<Rightarrow> a);
          desc = (case descender font of None \<Rightarrow> Num (- 200) | Some d \<Rightarrow> d);
          o1 = o0\<lparr>os2_version := (case os2_version o0 of None \<Rightarrow> Some (Num 1) | Some v \<Rightarrow> Some v),
                  usWeightClass := or_default (usWeightClass o0) (Num 400),
                  usWidthClass := or_default (usWidthClass o0) (Num 5),
                  ulCodePageRange1 := or_default (ulCodePageRange1 o0) (Num 1),
                  ulCodePageRange2 := or_default (ulCodePageRange2 o0) (Num 0),
                  sTypoAscender := Some asc, sTypoDescender := Some desc,
                  sTypoLineGap := Some (Num 0),
                  usWinAscent := Some asc, usWinDescent := Some (Math_abs desc)\<rparr>;
          h1 = h0\<lparr>hhea_ascender := Some asc, hhea_descender := Some desc, hhea_lineGap := Some (Num 0)\<rparr>
      in f3\<lparr>tables := t1\<lparr>tbl_post := Some p1, tbl_os2 := Some o1, tbl_hhea := Some h1\<rparr>\<rparr>)"

text \<open>
  \<^verbatim>\<open>createFontUrl\<close>. The serializer \<^verbatim>\<open>font.toArrayBuffer\<close> and \<^verbatim>\<open>URL.createObjectURL\<close>
  belong to the library and the host and are parameters; the serializer may throw. The
  body of the \<^verbatim>\<open>try\<close> is \<open>createFontUrl_try\<close>, whose left results are the exceptions thrown
  inside it. The function gives back the font as prepared and what the caller receives:
  a string, or on the left an exception that escapes.
\<close>

definition createFontUrl_try :: "(Font \<Rightarrow> jserror + byte list) \<Rightarrow> (byte list \<Rightarrow> jsstring) \<Rightarrow> Font \<Rightarrow> jserror + jsstring" where
  "createFontUrl_try toArrayBuffer createObjectURL prepared =
     (case toArrayBuffer prepared of
        Inl e \<Rightarrow> Inl e
      | Inr buffer \<Rightarrow>
          if length buffer = 0 then Inl (Error (str ''Generated font buffer is empty''))
          else Inr (createObjectURL buffer))"

definition createFontUrl :: "(Font \<Rightarrow> jserror + byte list) \<Rightarrow> (byte list \<Rightarrow> jsstring) \<Rightarrow> nat \<Rightarrow> Font \<Rightarrow> jsstring \<Rightarrow> Font \<times> (jserror + jsstring)" where
  "createFontUrl toArrayBuffer createObjectURL now font familyName =
     (let prepared = prepareExport now font familyName in
      (prepared,
       case createFontUrl_try toArrayBuffer createObjectURL prepared of
         Inl e \<Rightarrow> Inr []
       | Inr url \<Rightarrow> Inr url))"

section \<open>Example fonts\<close>

text \<open>A rectangular outline from \<open>(10, 0)\<close> to \<open>(110, 700)\<close>.\<close>

definition boxPath :: "command list" where
  "boxPath = [MoveTo 10 0, LineTo 110 0, LineTo 110 700, LineTo 10 700, ClosePath]"

definition exGlyph :: "jsstring \<Rightarrow> nat \<Rightarrow> command list \<Rightarrow> Glyph" where
  "exGlyph nm u p =
     \<lparr>name = Some nm, unicode = Some u, path = p, advanceWidth = Num 200,
      leftSideBearing = Some (Num 10), xMin = None, xMax = None, yMin = None, yMax = None\<rparr>"

definition noNames :: Names where
  "noNames =
     \<lparr>fontFamily = None, fontSubfamily = None, fullName = None, postScriptName = None,
      uniqueID = None, nameVersion = None\<rparr>"

definition noTables :: Tables where
  "noTables =
     \<lparr>tbl_kern = False, tbl_gpos = False, tbl_gsub = False, tbl_gdef = False,
      tbl_post = None, tbl_os2 = None, tbl_hhea = None\<rparr>"

text \<open>A font of glyphs \<open>gs\<close> whose character map is the association list \<open>m\<close>.\<close>

definition exFont :: "Glyph list \<Rightarrow> (jsstring \<times> nat) list \<Rightarrow> Font" where
  "exFont gs m =
     \<lparr>glyphs = gs, cmap = map_of m,
      ascender = Some (Num 800), descender = Some (Num (- 200)), unitsPerEm = Num 1000,
      names = noNames, tables = noTables\<rparr>"

text \<open>One letter \<open>A\<close> (code unit 65) with the rectangular outline.\<close>

definition fontA :: Font where
  "fontA = exFont [exGlyph (str ''A'') 65 boxPath] [([65], 0)]"

text \<open>A font whose only glyph is the space, given an outline so that only the guard protects it.\<close>

definition fontSpace :: Font where
  "fontSpace = exFont [exGlyph (str ''space'') 32 boxPath] [([32], 0)]"

text \<open>The masters of the end-to-end scenario, with no overrides.\<close>

definition settingsScenario :: SpacingSettings where
  "settingsScenario =
     \<lparr>master_H = \<lparr>lsb = Num 80, rsb = Num 80\<rparr>, master_O = \<lparr>lsb = Num 70, rsb = Num 70\<rparr>,
      master_n = \<lparr>lsb = Num 40, rsb = Num 35\<rparr>, master_o = \<lparr>lsb = Num 45, rsb = Num 45\<rparr>,
      overrides = []\<rparr>"

text \<open>A font with the letters \<open>M\<close>, \<open>N\<close> and \<open>T\<close>, each with a glyph of its own.\<close>

definition fontMNT :: Font where
  "fontMNT =
     exFont [exGlyph (str ''M'') 77 boxPath, exGlyph (str ''N'') 78 boxPath, exGlyph (str ''T'') 84 boxPath]
       [([77], 0), ([78], 1), ([84], 2)]"

text \<open>
  An all-capitals font with the same three glyphs: the character map sends each of the
  lower-case letters \<open>m\<close>, \<open>n\<close> and \<open>t\<close> (109, 110, 116) to the glyph of its capital.
\<close>

definition fontCaps :: Font where
  "fontCaps =
     exFont [exGlyph (str ''M'') 77 boxPath, exGlyph (str ''N'') 78 boxPath, exGlyph (str ''T'') 84 boxPath]
       [([77], 0), ([78], 1), ([84], 2), ([109], 0), ([110], 1), ([116], 2)]"

text \<open>The scenario's masters with one override, \<open>(10, 10)\<close> for the letter \<open>N\<close>.\<close>

definition settingsOverride :: SpacingSettings where
  "settingsOverride = settingsScenario\<lparr>overrides := [(str ''N'', Some (Num 10), Some (Num 10))]\<rparr>"




text \<open>
  A basic font without accented letters: glyph 0 is \<open>.notdef\<close>, glyph 1 is \<open>A\<close>, and every
  string other than \<open>A\<close> resolves to \<open>.notdef\<close>, which is how the parsing library answers
  for a character that the font does not map.
\<close>

definition notdefGlyph :: Glyph where
  "notdefGlyph =
     \<lparr>name = Some (str ''.notdef''), unicode = None, path = boxPath, advanceWidth = Num 200,
      leftSideBearing = Some (Num 10), xMin = None, xMax = None, yMin = None, yMax = None\<rparr>"








text \<open>A serializer that produces an empty buffer, and an object URL.\<close>

definition emptySerializer :: "Font \<Rightarrow> jserror + byte list" where
  "emptySerializer font = Inr []"

definition blobUrl :: "byte list \<Rightarrow> jsstring" where
  "blobUrl buffer = str ''blob:font''"

text \<open>
  A font whose glyphs are named \<open>.notdef\<close>, not at all (code point 65), by two blanks (no
  code point) and \<open>a b\<close>.
\<close>

definition fontNames :: Font where
  "fontNames =
     exFont [notdefGlyph,
             (exGlyph [] 65 boxPath)\<lparr>name := None\<rparr>,
             (exGlyph [32, 32] 0 boxPath)\<lparr>unicode := None\<rparr>,
             exGlyph (str ''a b'') 0 boxPath] []"

section \<open>Properties of the mutation primitive\<close>

lemma xsOf_shiftCmd: "xsOf (shiftCmd s c) = map (\<lambda>x. x + s) (xsOf c)"
  by (cases c) simp_all

lemma ysOf_shiftCmd: "ysOf (shiftCmd s c) = ysOf c"
  by (cases c) simp_all

lemma xs_shift: "concat (map xsOf (map (shiftCmd s) p)) = map (\<lambda>x. x + s) (concat (map xsOf p))"
  by (induction p) (simp_all add: xsOf_shiftCmd)

lemma draws_xsOf: "draws c \<longleftrightarrow> xsOf c \<noteq> []"
  by (cases c) simp_all

lemma outlined_xs: "outlined p \<longleftrightarrow> concat (map xsOf p) \<noteq> []"
  by (induction p) (auto simp: outlined_def draws_xsOf)

lemma draws_shiftCmd: "draws (shiftCmd s c) = draws c"
  by (cases c) simp_all

lemma outlined_shift: "outlined (map (shiftCmd s) p) = outlined p"
  by (induction p) (simp_all add: outlined_def draws_shiftCmd)

lemma Min_shift:
  fixes xs :: "real list"
  assumes "xs \<noteq> []"
  shows "Min (set (map (\<lambda>x. x + s) xs)) = Min (set xs) + s"
proof -
  have "Min ((\<lambda>x. x + s) ` set xs) = Min (set xs) + s"
    using assms by (intro Min_add_commute [where f = "\<lambda>x. x", simplified]) simp_all
  then show ?thesis by simp
qed

lemma Max_shift:
  fixes xs :: "real list"
  assumes "xs \<noteq> []"
  shows "Max (set (map (\<lambda>x. x + s) xs)) = Max (set xs) + s"
proof -
  have "Max ((\<lambda>x. x + s) ` set xs) = Max (set xs) + s"
    using assms by (intro Max_add_commute [where f = "\<lambda>x. x", simplified]) simp_all
  then show ?thesis by simp
qed

lemma pointsBox_outlined:
  assumes "concat (map xsOf p) \<noteq> []"
  shows "x1 (pointsBox p) = Num (Min (set (concat (map xsOf p))))"
    and "x2 (pointsBox p) = Num (Max (set (concat (map xsOf p))))"
  using assms unfolding pointsBox_def Let_def by (simp_all only: if_False BoundingBox.simps)

lemma translates_pointsBox: "translates pointsBox"
  unfolding translates_def
proof (intro allI impI)
  fix p s
  assume "outlined p"
  then have ne: "concat (map xsOf p) \<noteq> []"
    by (simp add: outlined_xs)
  then have ne': "concat (map xsOf (map (shiftCmd s) p)) \<noteq> []"
    by (simp only: xs_shift map_is_Nil_conv not_False_eq_True)
  show "x1 (pointsBox (map (shiftCmd s) p)) = num_add (x1 (pointsBox p)) (Num s) \<and>
        x2 (pointsBox (map (shiftCmd s) p)) = num_add (x2 (pointsBox p)) (Num s)"
    unfolding pointsBox_outlined [OF ne] pointsBox_outlined [OF ne']
    unfolding xs_shift Min_shift [OF ne] Max_shift [OF ne]
    by simp
qed

lemma isNaN_conv: "\<not> isNaN v \<longleftrightarrow> (\<exists>a. v = Num a)"
  by (cases v) simp_all

lemma charToGlyph_Some: "charToGlyph f c = Some i \<Longrightarrow> i < length (glyphs f)"
  by (auto simp: charToGlyph_def split: option.splits if_splits)

lemma length_glyphs_setGlyphSB [simp]: "length (glyphs (setGlyphSB bb f c l r)) = length (glyphs f)"
  by (simp add: setGlyphSB_def Let_def split: option.splits prod.splits)

lemma cmap_setGlyphSB [simp]: "cmap (setGlyphSB bb f c l r) = cmap f"
  by (simp add: setGlyphSB_def Let_def split: option.splits prod.splits)

lemma charToGlyph_setGlyphSB [simp]: "charToGlyph (setGlyphSB bb f c l r) d = charToGlyph f d"
  by (simp add: charToGlyph_def split: option.splits)

lemma setGlyphSB_other:
  "charToGlyph f c \<noteq> Some j \<Longrightarrow> glyphs (setGlyphSB bb f c l r) ! j = glyphs f ! j"
  by (auto simp: setGlyphSB_def Let_def split: option.splits prod.splits)

text \<open>The two steps on a glyph whose horizontal bounds are a and b.\<close>

lemma shiftLeft_cases:
  assumes tr: "translates bb" and ol: "outlined (path g)"
    and b1: "x1 (bb (path g)) = Num a" and b2: "x2 (bb (path g)) = Num b"
    and sl: "shiftLeft bb g (bb (path g)) l = (g1, bounds1)"
  shows "\<exists>s. path g1 = map (shiftCmd s) (path g) \<and> bounds1 = bb (path g1) \<and>
             x1 bounds1 = Num (a + s) \<and> x2 bounds1 = Num (b + s) \<and>
             name g1 = name g \<and> unicode g1 = unicode g \<and> advanceWidth g1 = advanceWidth g \<and>
             (\<forall>t. l = Some (Num t) \<longrightarrow> \<bar>a + s - t\<bar> \<le> 1 / 1000)"
proof -
  have id0: "map (shiftCmd 0) (path g) = path g"
  proof -
    have "shiftCmd 0 c = c" for c by (cases c) simp_all
    then show ?thesis by (simp add: map_idI)
  qed
  show ?thesis
  proof (cases "\<exists>t. l = Some (Num t) \<and> \<bar>t - a\<bar> > 1 / 1000")
    case True
    then obtain t where l: "l = Some (Num t)" and big: "\<bar>t - a\<bar> > 1 / 1000" by blast
    from sl l big b1 have g1: "g1 = g\<lparr>path := map (shiftCmd (t - a)) (path g),
        leftSideBearing := Some (Num t), xMin := None, xMax := None, yMin := None, yMax := None\<rparr>"
      and bd: "bounds1 = bb (map (shiftCmd (t - a)) (path g))"
      by (simp_all add: shiftLeft_def Let_def)
    from tr ol b1 b2 have "x1 (bb (map (shiftCmd (t - a)) (path g))) = Num (a + (t - a))"
      "x2 (bb (map (shiftCmd (t - a)) (path g))) = Num (b + (t - a))"
      by (simp_all add: translates_def)
    with g1 bd l show ?thesis
      by (intro exI [of _ "t - a"]) simp
  next
    case False
    with sl b1 have "g1 = g" "bounds1 = bb (path g)"
      by (auto simp: shiftLeft_def Let_def split: option.splits number.splits if_splits
          elim: num_sub.elims)
    with b1 b2 id0 False show ?thesis
      by (intro exI [of _ 0]) (auto simp: abs_minus_commute)
  qed
qed

lemma setAdvance_fields:
  "path (setAdvance g bounds r) = path g \<and> name (setAdvance g bounds r) = name g \<and>
   unicode (setAdvance g bounds r) = unicode g"
  by (simp add: setAdvance_def split: option.splits)

lemma isSpace_cong: "name g' = name g \<Longrightarrow> unicode g' = unicode g \<Longrightarrow> isSpace g' = isSpace g"
  by (simp add: isSpace_def)

text \<open>What one call does to the glyph it resolves to, when that glyph is spaceable.\<close>

lemma setGlyphSB_target:
  assumes tr: "translates bb" and res: "charToGlyph f c = Some i"
    and sp: "spaceable bb (glyphs f ! i)"
  shows "spaceable bb (glyphs (setGlyphSB bb f c l r) ! i) \<and>
         (\<forall>a b. l = Some (Num a) \<longrightarrow> r = Some (Num b) \<longrightarrow>
            hasBearings bb (glyphs (setGlyphSB bb f c l r) ! i) a b)"
proof -
  let ?g = "glyphs f ! i"
  from res have i: "i < length (glyphs f)" by (rule charToGlyph_Some)
  from sp have ns: "\<not> isSpace ?g" and ol: "outlined (path ?g)"
    and n1: "\<not> isNaN (x1 (bb (path ?g)))" and n2: "\<not> isNaN (x2 (bb (path ?g)))"
    by (simp_all add: spaceable_def nondegenerate_def)
  from n1 n2 obtain a b where b1: "x1 (bb (path ?g)) = Num a" and b2: "x2 (bb (path ?g)) = Num b"
    by (auto simp: isNaN_conv)
  obtain g1 bounds1 where sl: "shiftLeft bb ?g (bb (path ?g)) l = (g1, bounds1)"
    by (cases "shiftLeft bb ?g (bb (path ?g)) l") blast
  from shiftLeft_cases [OF tr ol b1 b2 sl] obtain s where
    p1: "path g1 = map (shiftCmd s) (path ?g)" and bd: "bounds1 = bb (path g1)"
    and c1: "x1 bounds1 = Num (a + s)" and c2: "x2 bounds1 = Num (b + s)"
    and nm: "name g1 = name ?g" and un: "unicode g1 = unicode ?g"
    and aw: "advanceWidth g1 = advanceWidth ?g"
    and cl: "\<forall>t. l = Some (Num t) \<longrightarrow> \<bar>a + s - t\<bar> \<le> 1 / 1000"
    by blast
  let ?g2 = "setAdvance g1 bounds1 r"
  have res2: "glyphs (setGlyphSB bb f c l r) ! i = ?g2"
    using res ns n1 n2 sl i by (simp add: setGlyphSB_def Let_def)
  have f2: "path ?g2 = path g1" "name ?g2 = name g1" "unicode ?g2 = unicode g1"
    using setAdvance_fields [of g1 bounds1 r] by simp_all
  have "isSpace ?g2 = isSpace ?g"
    using f2 nm un by (intro isSpace_cong) simp_all
  then have "spaceable bb ?g2"
    using ns ol c1 c2 bd f2 p1
    by (simp add: spaceable_def nondegenerate_def outlined_shift)
  moreover have "hasBearings bb ?g2 tl tr" if "l = Some (Num tl)" "r = Some (Num tr)" for tl tr
  proof -
    from that c2 have "advanceWidth ?g2 = Num (b + s + tr)"
      by (simp add: setAdvance_def)
    with that cl c1 c2 bd f2 show ?thesis
      by (simp add: hasBearings_def lsbOf_def rsbOf_def)
  qed
  ultimately show ?thesis unfolding res2 by blast
qed

lemma setGlyphSB_spaceable:
  assumes "translates bb" and "j < length (glyphs f)" and "spaceable bb (glyphs f ! j)"
  shows "spaceable bb (glyphs (setGlyphSB bb f c l r) ! j)"
proof (cases "charToGlyph f c = Some j")
  case True
  with assms show ?thesis using setGlyphSB_target by blast
next
  case False
  with assms show ?thesis by (simp add: setGlyphSB_other)
qed

lemma setGlyphSB_space:
  assumes "charToGlyph f c = Some i" and "isSpace (glyphs f ! i)"
  shows "setGlyphSB bb f c l r = f"
  using assms by (simp add: setGlyphSB_def Let_def)

lemma isSpace_iff:
  "isSpace g \<longleftrightarrow>
     name g = Some (str ''space'') \<or> unicode g = Some 32 \<or>
     (\<exists>nm. name g = Some nm \<and> str_includes nm (str ''space''))"
  by (cases "name g") (simp_all add: isSpace_def)


lemma boxPath_box:
  "x1 (pointsBox boxPath) = Num 10" "x2 (pointsBox boxPath) = Num 110"
  "y1 (pointsBox boxPath) = Num 0" "y2 (pointsBox boxPath) = Num 700"
  by (simp_all add: pointsBox_def boxPath_def)

lemma outlined_boxPath: "outlined boxPath"
  by (simp add: outlined_def boxPath_def)

lemma nondegenerate_exGlyph: "nondegenerate pointsBox (exGlyph nm u boxPath)"
  by (simp add: nondegenerate_def exGlyph_def outlined_boxPath boxPath_box)

section \<open>The methods run their sequences of calls\<close>


lemma run_Nil [simp]: "run bb f [] = f"
  by (simp add: run_def)

lemma run_Cons [simp]: "run bb f ((c, l, r) # cs) = run bb (setGlyphSB bb f c l r) cs"
  by (simp add: run_def)

lemma run_append: "run bb f (xs @ ys) = run bb (run bb f xs) ys"
  by (simp add: run_def)

lemma foldl_variants_run:
  "foldl (\<lambda>f v. setGlyphSB bb f v l r) f vs = run bb f (map (\<lambda>v. (v, l, r)) vs)"
  by (induction vs arbitrary: f) simp_all

lemma applyRule_run: "applyRule bb f c (Some l) (Some r) = run bb f (ruleCalls (c, l, r))"
  by (cases "DIACRITICS_MAP c")
     (simp_all add: applyRule_def ruleCalls_def variants_def Let_def foldl_variants_run)

lemma foldl_run_concat: "foldl (\<lambda>f x. run bb f (g x)) f xs = run bb f (concat (map g xs))"
  by (induction xs arbitrary: f) (simp_all add: run_append)

lemma rules_run:
  "foldl (\<lambda>f (c, l, r). applyRule bb f c (Some l) (Some r)) f rules =
   run bb f (concat (map ruleCalls rules))"
proof -
  have "(\<lambda>f (c, l, r). applyRule bb f c (Some l) (Some r)) = (\<lambda>f x. run bb f (ruleCalls x))"
    by (intro ext) (simp add: applyRule_run split_def)
  then show ?thesis by (simp only: foldl_run_concat)
qed

lemma keys_run:
  "foldl (\<lambda>f c. case map_of ovs c of None \<Rightarrow> f | Some (l, r) \<Rightarrow> setGlyphSB bb f c l r) f ks =
   run bb f (concat (map (\<lambda>c. case map_of ovs c of None \<Rightarrow> [] | Some (l, r) \<Rightarrow> [(c, l, r)]) ks))"
  by (induction ks arbitrary: f) (auto split: option.splits)

lemma applyOverrides_run: "applyOverrides bb f ovs = run bb f (overrideCalls ovs)"
  by (simp add: applyOverrides_def overrideCalls_def keys_run)

lemma applyTracyMethod_run: "applyTracyMethod bb f s = run bb f (tracyCalls s)"
  by (simp add: applyTracyMethod_def tracyCalls_def rules_run applyOverrides_run run_append)

lemma distinct_TOPOLOGY: "distinct (map fst TOPOLOGY)"
  by (simp add: TOPOLOGY_def str_def)

lemma sousaStep_run:
  assumes "map_of TOPOLOGY c = Some (a, b)"
  shows "sousaStep bb s f c = run bb f (ruleCalls (c, getValue s c a, getValue s c b))"
  using assms
  by (cases "DIACRITICS_MAP c")
     (simp_all add: sousaStep_def ruleCalls_def variants_def Let_def foldl_variants_run)

lemma sousa_steps_run:
  assumes "\<forall>(c, e) \<in> set xs. map_of TOPOLOGY c = Some e"
  shows "foldl (sousaStep bb s) f (map fst xs) =
         run bb f (concat (map ruleCalls (map (\<lambda>(c, a, b). (c, getValue s c a, getValue s c b)) xs)))"
  using assms
proof (induction xs arbitrary: f)
  case Nil
  show ?case by simp
next
  case (Cons x xs)
  obtain c a b where x: "x = (c, a, b)" by (cases x)
  with Cons.prems have "map_of TOPOLOGY c = Some (a, b)" by simp
  then show ?case using Cons by (simp add: x sousaStep_run run_append)
qed

lemma setMasterSafe_run:
  "setMasterSafe bb s f c val =
   run bb f (if map_of (overrides s) c = None then [(c, Some (lsb val), Some (rsb val))] else [])"
  by (simp add: setMasterSafe_def)

lemma applySousaMethod_run: "applySousaMethod bb f s = run bb f (sousaCalls s)"
proof -
  have "\<forall>(c, e) \<in> set TOPOLOGY. map_of TOPOLOGY c = Some e"
    using distinct_TOPOLOGY by auto
  then have "foldl (sousaStep bb s) f (map fst TOPOLOGY) = run bb f (concat (map ruleCalls (sousaRules s)))"
    unfolding sousaRules_def by (rule sousa_steps_run)
  then show ?thesis
    by (simp add: applySousaMethod_def sousaCalls_def masterCalls_def Let_def applyOverrides_run
        setMasterSafe_run run_append del: run_Cons)
qed

section \<open>The last call for a character decides\<close>



lemma charToGlyph_run [simp]: "charToGlyph (run bb f cs) d = charToGlyph f d"
  by (induction cs arbitrary: f) auto

lemma length_glyphs_run [simp]: "length (glyphs (run bb f cs)) = length (glyphs f)"
  by (induction cs arbitrary: f) auto

lemma run_spaceable:
  assumes "translates bb" and "j < length (glyphs f)" and "spaceable bb (glyphs f ! j)"
  shows "spaceable bb (glyphs (run bb f cs) ! j)"
  using assms(2,3)
proof (induction cs arbitrary: f)
  case Nil
  then show ?case by simp
next
  case (Cons x cs)
  obtain c l r where x: "x = (c, l, r)" by (cases x)
  from Cons.prems assms(1) have "spaceable bb (glyphs (setGlyphSB bb f c l r) ! j)"
    by (intro setGlyphSB_spaceable)
  with Cons.IH [of "setGlyphSB bb f c l r"] Cons.prems show ?case
    by (simp add: x)
qed

lemma run_other:
  assumes "\<forall>d \<in> set (map fst cs). charToGlyph f d \<noteq> Some j"
  shows "glyphs (run bb f cs) ! j = glyphs f ! j"
  using assms
proof (induction cs arbitrary: f)
  case Nil
  then show ?case by simp
next
  case (Cons x cs)
  obtain c l r where x: "x = (c, l, r)" by (cases x)
  from Cons.prems have "charToGlyph f c \<noteq> Some j" by (simp add: x)
  then have "glyphs (setGlyphSB bb f c l r) ! j = glyphs f ! j"
    by (rule setGlyphSB_other)
  with Cons.IH [of "setGlyphSB bb f c l r"] Cons.prems show ?case
    by (simp add: x)
qed

lemma lastFor_split:
  assumes "lastFor c cs = Some v"
  shows "\<exists>pre post. cs = pre @ (c, v) # post \<and> c \<notin> fst ` set post"
  using assms unfolding lastFor_def
proof (induction cs rule: rev_induct)
  case Nil
  then show ?case by simp
next
  case (snoc x xs)
  show ?case
  proof (cases "fst x = c")
    case True
    with snoc.prems have "x = (c, v)" by (cases x) simp
    then have "xs @ [x] = xs @ (c, v) # [] \<and> c \<notin> fst ` set []" by simp
    then show ?thesis by blast
  next
    case False
    with snoc.prems have "map_of (rev xs) c = Some v" by (cases x) simp
    with snoc.IH obtain pre post where "xs = pre @ (c, v) # post" "c \<notin> fst ` set post" by blast
    with False have "xs @ [x] = pre @ (c, v) # (post @ [x]) \<and> c \<notin> fst ` set (post @ [x])" by auto
    then show ?thesis by blast
  qed
qed

lemma treatedAfter_split:
  assumes "c \<notin> fst ` set post"
  shows "treatedAfter c (pre @ (c, v) # post) = map fst post"
proof -
  have "\<And>d. d \<in> set (rev (map fst post)) \<Longrightarrow> d \<noteq> c" using assms by auto
  then have "takeWhile (\<lambda>d. d \<noteq> c) (rev (map fst post) @ c # rev (map fst pre)) =
      rev (map fst post) @ takeWhile (\<lambda>d. d \<noteq> c) (c # rev (map fst pre))"
    by (rule takeWhile_append2)
  then have "takeWhile (\<lambda>d. d \<noteq> c) (rev (map fst post) @ c # rev (map fst pre)) = rev (map fst post)"
    by simp
  then show ?thesis by (simp add: treatedAfter_def)
qed

text \<open>The glyph of a character carries the pair of the last call made for that character,
  provided no character treated later resolves to the same glyph.\<close>

lemma run_final:
  assumes tr: "translates bb" and res: "charToGlyph f c = Some i"
    and sp: "spaceable bb (glyphs f ! i)"
    and last: "lastFor c cs = Some (Some (Num L), Some (Num R))"
    and later: "\<forall>d \<in> set (treatedAfter c cs). charToGlyph f d \<noteq> Some i"
  shows "hasBearings bb (glyphs (run bb f cs) ! i) L R \<and> spaceable bb (glyphs (run bb f cs) ! i)"
proof -
  from lastFor_split [OF last] obtain pre post
    where cs: "cs = pre @ (c, Some (Num L), Some (Num R)) # post" and c: "c \<notin> fst ` set post"
    by blast
  let ?f1 = "run bb f pre"
  let ?f2 = "setGlyphSB bb ?f1 c (Some (Num L)) (Some (Num R))"
  from res have i: "i < length (glyphs f)" by (rule charToGlyph_Some)
  have sp1: "spaceable bb (glyphs ?f1 ! i)" using tr i sp by (rule run_spaceable)
  have res1: "charToGlyph ?f1 c = Some i" using res by simp
  from setGlyphSB_target [OF tr res1 sp1, of "Some (Num L)" "Some (Num R)"]
  have t: "spaceable bb (glyphs ?f2 ! i)" "hasBearings bb (glyphs ?f2 ! i) L R"
    by simp_all
  from later c have "\<forall>d \<in> set (map fst post). charToGlyph ?f2 d \<noteq> Some i"
    by (simp add: cs treatedAfter_split)
  then have "glyphs (run bb ?f2 post) ! i = glyphs ?f2 ! i"
    by (rule run_other)
  moreover have "run bb f cs = run bb ?f2 post"
    by (simp add: cs run_append)
  ultimately show ?thesis using t by simp
qed

lemma Math_round_near:
  assumes "near (1 / 1000) v (of_int k)"
  shows "Math_round v = Num (of_int k)"
proof (cases v)
  case NaN
  with assms show ?thesis by simp
next
  case (Num a)
  with assms have "\<bar>a - of_int k\<bar> \<le> 1 / 1000" by simp
  then have "of_int k \<le> a + 1 / 2" and "a + 1 / 2 < of_int k + 1" by linarith+
  then have "\<lfloor>a + 1 / 2\<rfloor> = k" by (rule floor_unique)
  with Num show ?thesis by simp
qed

lemma outlined_nonempty: "outlined p \<Longrightarrow> p \<noteq> []"
  by (auto simp: outlined_def)

lemma getCharMetrics_hasBearings:
  assumes "charToGlyph f c = Some i" and "spaceable bb (glyphs f ! i)"
    and "hasBearings bb (glyphs f ! i) (of_int k) (of_int m)"
  shows "getCharMetrics bb f c = \<lparr>lsb = Num (of_int k), rsb = Num (of_int m)\<rparr>"
proof -
  from assms(2) have ne: "path (glyphs f ! i) \<noteq> []"
    by (simp add: spaceable_def nondegenerate_def outlined_nonempty)
  from assms(3) have l: "Math_round (x1 (bb (path (glyphs f ! i)))) = Num (of_int k)"
    and r: "num_sub (advanceWidth (glyphs f ! i)) (x2 (bb (path (glyphs f ! i)))) = Num (of_int m)"
    by (simp_all add: hasBearings_def lsbOf_def rsbOf_def Math_round_near)
  have "Math_round (Num (of_int m)) = Num (of_int m)" by simp
  with assms(1) ne l r show ?thesis
    by (simp add: getCharMetrics_def Let_def)
qed

section \<open>The structure of the call sequences\<close>


subsection \<open>The table of variants\<close>

lemma map_of_singleton_keys:
  "map_of (map (\<lambda>(b, vs). ([b], g vs)) xs) c =
     (case c of [b] \<Rightarrow> map_option g (map_of xs b) | _ \<Rightarrow> None)"
proof (induction xs)
  case Nil
  show ?case by (simp split: list.splits)
next
  case (Cons x xs)
  obtain b vs where x: "x = (b, vs)" by (cases x)
  show ?case by (auto simp: x Cons split: list.splits)
qed

lemma variants_single:
  "variants [b] = (case map_of DIACRITICS_codes b of None \<Rightarrow> [] | Some vs \<Rightarrow> map (\<lambda>v. [v]) vs)"
  by (simp add: variants_def DIACRITICS_MAP_def map_of_singleton_keys split: option.splits)

lemma variants_other: "length c \<noteq> 1 \<Longrightarrow> variants c = []"
  by (cases c; cases "tl c") (simp_all add: variants_def DIACRITICS_MAP_def map_of_singleton_keys)

lemma variant_cases:
  assumes "v \<in> set (variants c)"
  obtains b n vs where "c = [b]" "v = [n]" "(b, vs) \<in> set DIACRITICS_codes" "n \<in> set vs"
proof -
  from assms have "length c = 1" using variants_other by fastforce
  then obtain b where c: "c = [b]" by (cases c) simp_all
  show thesis
  proof (cases "map_of DIACRITICS_codes b")
    case None
    with assms c show ?thesis by (simp add: variants_single)
  next
    case (Some vs)
    with assms c obtain n where "v = [n]" "n \<in> set vs"
      by (auto simp: variants_single)
    moreover from Some have "(b, vs) \<in> set DIACRITICS_codes" by (rule map_of_SomeD)
    ultimately show ?thesis using c that by blast
  qed
qed

lemma codes_high: "\<forall>(b, vs) \<in> set DIACRITICS_codes. \<forall>n \<in> set vs. 192 \<le> n"
  by (simp add: DIACRITICS_codes_def)

lemma codes_low: "\<forall>(b, vs) \<in> set DIACRITICS_codes. b < 128"
  by (simp add: DIACRITICS_codes_def)


lemma variant_high:
  assumes "v \<in> set (variants c)"
  shows "\<exists>n. v = [n] \<and> 192 \<le> n"
  using assms codes_high by (elim variant_cases) auto

lemma variant_base_low:
  assumes "v \<in> set (variants c)"
  shows "\<exists>b. c = [b] \<and> b < 128"
  using assms codes_low by (elim variant_cases) auto



text \<open>An ASCII letter is the variant of nothing, and no variant is an ASCII letter.\<close>

lemma low_not_variant: "n < 192 \<Longrightarrow> [n] \<notin> set (variants c)"
  using variant_high by fastforce

subsection \<open>The last call in a list of rule calls\<close>

lemma lastFor_append:
  "lastFor c (xs @ ys) = (case lastFor c ys of None \<Rightarrow> lastFor c xs | Some v \<Rightarrow> Some v)"
  by (simp add: lastFor_def map_add_def split: option.splits)

lemma lastFor_Nil [simp]: "lastFor c [] = None"
  by (simp add: lastFor_def)

lemma lastFor_None: "lastFor c cs = None \<longleftrightarrow> c \<notin> fst ` set cs"
  by (simp add: lastFor_def map_of_eq_None_iff)

lemma map_of_const: "map_of (map (\<lambda>k. (k, x)) ks) c = (if c \<in> set ks then Some x else None)"
  by (induction ks) auto

lemma lastFor_ruleCalls:
  "lastFor c (ruleCalls (d, l, r)) =
     (if c = d \<or> c \<in> set (variants d) then Some (Some l, Some r) else None)"
proof -
  have "ruleCalls (d, l, r) = map (\<lambda>k. (k, Some l, Some r)) (d # variants d)"
    by (simp add: ruleCalls_def)
  then have "lastFor c (ruleCalls (d, l, r)) = map_of (map (\<lambda>k. (k, Some l, Some r)) (rev (d # variants d))) c"
    by (simp only: lastFor_def rev_map)
  then show ?thesis by (simp only: map_of_const) auto
qed

lemma lastFor_rules_letter:
  assumes "\<And>d. c \<notin> set (variants d)"
  shows "lastFor c (concat (map ruleCalls rules)) =
         map_option (\<lambda>(l, r). (Some l, Some r)) (map_of (rev rules) c)"
proof (induction rules rule: rev_induct)
  case Nil
  show ?case by simp
next
  case (snoc x rules)
  obtain d l r where x: "x = (d, l, r)" by (cases x)
  show ?case using snoc assms
    by (simp add: x lastFor_append lastFor_ruleCalls)
qed


lemma notin_treatedAfter: "c \<notin> set (treatedAfter c cs)"
  by (auto simp: treatedAfter_def dest: set_takeWhileD)

lemma treatedAfter_subset: "set (treatedAfter c cs) \<subseteq> fst ` set cs"
  by (auto simp: treatedAfter_def dest!: set_takeWhileD)

lemma treatedAfter_append:
  "treatedAfter c (xs @ ys) =
     (if c \<in> fst ` set ys then treatedAfter c ys else treatedAfter c xs @ map fst ys)"
proof (cases "c \<in> fst ` set ys")
  case True
  then have "c \<in> set (rev (map fst ys))" by simp
  then have "takeWhile (\<lambda>d. d \<noteq> c) (rev (map fst ys) @ rev (map fst xs)) =
             takeWhile (\<lambda>d. d \<noteq> c) (rev (map fst ys))"
    by (intro takeWhile_append1 [where x = c]) simp_all
  with True show ?thesis by (simp add: treatedAfter_def)
next
  case False
  then have "\<And>d. d \<in> set (rev (map fst ys)) \<Longrightarrow> d \<noteq> c" by auto
  then have "takeWhile (\<lambda>d. d \<noteq> c) (rev (map fst ys) @ rev (map fst xs)) =
             rev (map fst ys) @ takeWhile (\<lambda>d. d \<noteq> c) (rev (map fst xs))"
    by (rule takeWhile_append2)
  with False show ?thesis by (simp add: treatedAfter_def)
qed

lemma fst_ruleCalls: "map fst (ruleCalls (d, l, r)) = d # variants d"
  by (simp add: ruleCalls_def comp_def)

lemma chars_ruleCalls:
  "fst ` set (concat (map ruleCalls rules)) =
     (\<Union>d \<in> fst ` set rules. insert d (set (variants d)))"
proof (induction rules)
  case Nil
  show ?case by simp
next
  case (Cons x rules)
  obtain d l r where x: "x = (d, l, r)" by (cases x)
  have "fst ` set (ruleCalls (d, l, r)) = insert d (set (variants d))"
    using fst_ruleCalls [of d l r] by (metis list.set(2) set_map)
  with Cons show ?case by (simp add: x image_Un)
qed

section \<open>Facts about the rule tables\<close>


lemma run_final_metrics:
  assumes tr: "translates bb" and res: "charToGlyph f c = Some i"
    and sp: "spaceable bb (glyphs f ! i)"
    and last: "lastFor c cs = Some (Some (Num (of_int k)), Some (Num (of_int m)))"
    and later: "\<forall>d \<in> set (treatedAfter c cs). charToGlyph f d \<noteq> Some i"
    and res': "charToGlyph f c' = Some i"
  shows "getCharMetrics bb (run bb f cs) c' = \<lparr>lsb = Num (of_int k), rsb = Num (of_int m)\<rparr>"
proof -
  from run_final [OF tr res sp last later]
  have "hasBearings bb (glyphs (run bb f cs) ! i) (of_int k) (of_int m)"
    and "spaceable bb (glyphs (run bb f cs) ! i)" by simp_all
  moreover have "charToGlyph (run bb f cs) c' = Some i" using res' by simp
  ultimately show ?thesis by (intro getCharMetrics_hasBearings)
qed

lemma tracy_rule_M: "map_of (rev (tracyRules s)) (str ''M'') = Some (valMoreH s, valMoreH s)"
  by (simp add: tracyRules_def str_def)

lemma tracy_rule_N: "map_of (rev (tracyRules s)) (str ''N'') = Some (valMoreH s, valMoreH s)"
  by (simp add: tracyRules_def str_def)

lemma tracy_rule_T: "map_of (rev (tracyRules s)) (str ''T'') = Some (valMin s, valMin s)"
  by (simp add: tracyRules_def str_def)

lemma tracy_rule_m: "map_of (rev (tracyRules s)) (str ''m'') = Some (nStem s, nArch s)"
  by (simp add: tracyRules_def str_def)

lemma vals_scenario:
  "valMoreH settingsScenario = Num 92" "valMin settingsScenario = Num 20"
  "nStem settingsScenario = Num 40" "nArch settingsScenario = Num 35"
  by (simp_all add: valMoreH_def valMin_def valH_def nStem_def nArch_def settingsScenario_def)

lemma tracyCalls_scenario: "tracyCalls settingsScenario = concat (map ruleCalls (tracyRules settingsScenario))"
  by (simp add: tracyCalls_def overrideCalls_def settingsScenario_def)

lemma letter_not_variant: "length c = 1 \<Longrightarrow> hd c < 192 \<Longrightarrow> c \<notin> set (variants d)"
  by (cases c) (auto dest: variant_high)

lemma lastFor_scenario:
  "lastFor (str ''M'') (tracyCalls settingsScenario) = Some (Some (Num 92), Some (Num 92))"
  "lastFor (str ''N'') (tracyCalls settingsScenario) = Some (Some (Num 92), Some (Num 92))"
  "lastFor (str ''T'') (tracyCalls settingsScenario) = Some (Some (Num 20), Some (Num 20))"
  "lastFor (str ''m'') (tracyCalls settingsScenario) = Some (Some (Num 40), Some (Num 35))"
proof -
  have nv: "str ''M'' \<notin> set (variants d)" "str ''N'' \<notin> set (variants d)"
    "str ''T'' \<notin> set (variants d)" "str ''m'' \<notin> set (variants d)" for d
    by (rule letter_not_variant; simp add: str_def)+
  show "lastFor (str ''M'') (tracyCalls settingsScenario) = Some (Some (Num 92), Some (Num 92))"
    unfolding tracyCalls_scenario by (simp add: lastFor_rules_letter [OF nv(1)] tracy_rule_M vals_scenario)
  show "lastFor (str ''N'') (tracyCalls settingsScenario) = Some (Some (Num 92), Some (Num 92))"
    unfolding tracyCalls_scenario by (simp add: lastFor_rules_letter [OF nv(2)] tracy_rule_N vals_scenario)
  show "lastFor (str ''T'') (tracyCalls settingsScenario) = Some (Some (Num 20), Some (Num 20))"
    unfolding tracyCalls_scenario by (simp add: lastFor_rules_letter [OF nv(3)] tracy_rule_T vals_scenario)
  show "lastFor (str ''m'') (tracyCalls settingsScenario) = Some (Some (Num 40), Some (Num 35))"
    unfolding tracyCalls_scenario by (simp add: lastFor_rules_letter [OF nv(4)] tracy_rule_m vals_scenario)
qed

lemma exFont_simps [simp]:
  "glyphs (exFont gs m) = gs" "cmap (exFont gs m) = map_of m"
  by (simp_all add: exFont_def)

lemma spaceable_exGlyph:
  "\<not> isSpace (exGlyph nm u boxPath) \<Longrightarrow> spaceable pointsBox (exGlyph nm u boxPath)"
  by (simp add: spaceable_def nondegenerate_exGlyph)

lemma isSpace_exGlyph:
  "isSpace (exGlyph nm u p) \<longleftrightarrow> nm = str ''space'' \<or> u = 32 \<or> str_includes nm (str ''space'')"
  by (simp add: isSpace_def exGlyph_def)

lemma tracy_tail: "map fst (drop 41 (tracyRules s)) =
    map str [''m'', ''n'', ''n'', ''o'', ''p'', ''q'', ''r'', ''s'', ''t'', ''u'', ''v'', ''w'', ''x'', ''y'', ''z'', ''a'']"
  by (simp add: tracyRules_def)


section \<open>Overrides, masters and variants in the call sequences\<close>



lemma map_of_graph: "map_of (map (\<lambda>k. (k, g k)) ks) c = (if c \<in> set ks then Some (g c) else None)"
  by (induction ks) auto

lemma concat_singletons: "(\<And>x. x \<in> set xs \<Longrightarrow> f x = [g x]) \<Longrightarrow> concat (map f xs) = map g xs"
  by (induction xs) simp_all

lemma overrideCalls_graph:
  "overrideCalls ovs = map (\<lambda>c. (c, the (map_of ovs c))) (map fst ovs)"
  unfolding overrideCalls_def
proof (rule concat_singletons)
  fix c
  assume "c \<in> set (map fst ovs)"
  then have "map_of ovs c \<noteq> None" by (simp add: map_of_eq_None_iff)
  then show "(case map_of ovs c of None \<Rightarrow> [] | Some (l, r) \<Rightarrow> [(c, l, r)]) = [(c, the (map_of ovs c))]"
    by (auto split: option.splits)
qed


lemma lastFor_overrideCalls: "lastFor c (overrideCalls ovs) = map_of ovs c"
proof -
  have "lastFor c (overrideCalls ovs) = map_of (map (\<lambda>k. (k, the (map_of ovs k))) (rev (map fst ovs))) c"
    by (simp only: lastFor_def overrideCalls_graph rev_map)
  also have "\<dots> = (if c \<in> set (map fst ovs) then Some (the (map_of ovs c)) else None)"
    by (simp only: map_of_graph set_rev)
  also have "\<dots> = map_of ovs c"
    by (cases "map_of ovs c") (auto simp: map_of_eq_None_iff [symmetric] simp del: map_of_eq_None_iff)
  finally show ?thesis .
qed

lemma masterCalls_chars: "c \<in> fst ` set (masterCalls s) \<Longrightarrow> map_of (overrides s) c = None"
  by (auto simp: masterCalls_def split: if_splits)


text \<open>Where the last call for an overridden character stands in the two sequences.\<close>

lemma override_last:
  assumes "map_of (overrides s) c = Some v"
  shows "lastFor c (tracyCalls s) = Some v"
    and "treatedAfter c (tracyCalls s) = treatedAfter c (overrideCalls (overrides s))"
    and "lastFor c (sousaCalls s) = Some v"
    and "treatedAfter c (sousaCalls s) =
         treatedAfter c (overrideCalls (overrides s)) @ map fst (masterCalls s)"
proof -
  let ?ov = "overrideCalls (overrides s)"
  from assms have l: "lastFor c ?ov = Some v" by (simp add: lastFor_overrideCalls)
  then have "lastFor c ?ov \<noteq> None" by simp
  then have i: "c \<in> fst ` set ?ov" by (simp only: lastFor_None not_not)
  from assms have "c \<notin> fst ` set (masterCalls s)" using masterCalls_chars by fastforce
  then have m: "lastFor c (masterCalls s) = None" by (simp add: lastFor_None)
  have j: "c \<notin> fst ` set (masterCalls s)" by fact
  show "lastFor c (tracyCalls s) = Some v"
    by (simp add: tracyCalls_def lastFor_append l)
  show "treatedAfter c (tracyCalls s) = treatedAfter c ?ov"
    using i by (simp add: tracyCalls_def treatedAfter_append)
  show "lastFor c (sousaCalls s) = Some v"
    by (simp add: sousaCalls_def lastFor_append l m)
  have "c \<in> fst ` set (?ov @ masterCalls s)" using i by auto
  then have "treatedAfter c (sousaCalls s) = treatedAfter c (?ov @ masterCalls s)"
    unfolding sousaCalls_def by (simp only: treatedAfter_append if_True)
  also have "\<dots> = treatedAfter c ?ov @ map fst (masterCalls s)"
    using j by (simp only: treatedAfter_append if_False)
  finally show "treatedAfter c (sousaCalls s) = treatedAfter c ?ov @ map fst (masterCalls s)" .
qed

lemma map_of_keyed:
  "map_of (map (\<lambda>(k, a, b). (k, g k a, g k b)) xs) c = map_option (\<lambda>(a, b). (g c a, g c b)) (map_of xs c)"
  by (induction xs) auto

lemma map_of_sousaRules:
  "map_of (sousaRules s) c =
     map_option (\<lambda>(a, b). (getValue s c a, getValue s c b)) (map_of TOPOLOGY c)"
  unfolding sousaRules_def by (rule map_of_keyed)








lemma charToGlyph_fontMNT:
  "charToGlyph fontMNT d = (if d = [77] then Some 0 else if d = [78] then Some 1
      else if d = [84] then Some 2 else None)"
  by (simp add: fontMNT_def charToGlyph_def)

lemma spaceable_fontMNT:
  "spaceable pointsBox (glyphs fontMNT ! 0)" "spaceable pointsBox (glyphs fontMNT ! 1)"
  "spaceable pointsBox (glyphs fontMNT ! 2)"
  by (simp_all add: fontMNT_def spaceable_exGlyph isSpace_exGlyph str_def)

lemma charToGlyph_fontCaps:
  "charToGlyph fontCaps d = (if d = [77] \<or> d = [109] then Some 0 else if d = [78] \<or> d = [110] then Some 1
      else if d = [84] \<or> d = [116] then Some 2 else None)"
  by (simp add: fontCaps_def charToGlyph_def)

lemma spaceable_fontCaps:
  "spaceable pointsBox (glyphs fontCaps ! 0)" "spaceable pointsBox (glyphs fontCaps ! 1)"
  "spaceable pointsBox (glyphs fontCaps ! 2)"
  by (simp_all add: fontCaps_def spaceable_exGlyph isSpace_exGlyph str_def)

lemma overrides_N: "map_of (overrides settingsOverride) (str ''N'') = Some (Some (Num 10), Some (Num 10))"
  by (simp add: settingsOverride_def)

lemma masterCalls_N:
  "masterCalls settingsOverride =
     [([110], Some (Num 40), Some (Num 35)), ([111], Some (Num 45), Some (Num 45)),
      ([72], Some (Num 80), Some (Num 80)), ([79], Some (Num 70), Some (Num 70))]"
  by (simp add: masterCalls_def settingsOverride_def settingsScenario_def str_def)

lemma topology_N: "map_of TOPOLOGY [78] = Some (Straight, Straight)"
  by (simp add: TOPOLOGY_def str_def)

lemma sousa_rule_N: "map_of (sousaRules settingsOverride) (str ''N'') = Some (Num 80, Num 80)"
  by (simp add: map_of_sousaRules topology_N getValue_def toUpperCase_def toLowerCase_def str_def
      settingsOverride_def settingsScenario_def)


section \<open>Facts about the example fonts and settings\<close>

















section \<open>Boxes of the example outlines\<close>





section \<open>The loop over the table directory\<close>


lemma length_writeVoid [simp]: "length (writeVoid d off) = length d"
  by (simp add: writeVoid_def)









section \<open>Generated and sanitized glyph names\<close>


lemma hexDigit_alnum: "d < 16 \<Longrightarrow> isAlnum (hexDigit d)"
  by (simp add: hexDigit_def isAlnum_def)

lemma toHex_alnum: "c \<in> set (toHex n) \<Longrightarrow> isAlnum c"
proof (induction n arbitrary: c rule: toHex.induct)
  case (1 n)
  show ?case
  proof (cases "n < 16")
    case True
    with "1.prems" have "c = hexDigit n" by (subst (asm) toHex.simps) simp
    with True show ?thesis by (simp add: hexDigit_alnum)
  next
    case False
    with "1.prems" have "c \<in> set (toHex (n div 16)) \<or> c = hexDigit (n mod 16)"
      by (subst (asm) toHex.simps) auto
    then show ?thesis
    proof
      assume "c \<in> set (toHex (n div 16))"
      with False show ?thesis by (rule "1.IH")
    next
      assume "c = hexDigit (n mod 16)"
      then show ?thesis by (simp add: hexDigit_alnum)
    qed
  qed
qed

lemma toDec_alnum: "c \<in> set (toDec n) \<Longrightarrow> isAlnum c"
proof (induction n arbitrary: c rule: toDec.induct)
  case (1 n)
  show ?case
  proof (cases "n < 10")
    case True
    with "1.prems" have "c = 48 + n" by (subst (asm) toDec.simps) simp
    with True show ?thesis by (simp add: isAlnum_def)
  next
    case False
    with "1.prems" have "c \<in> set (toDec (n div 10)) \<or> c = 48 + n mod 10"
      by (subst (asm) toDec.simps) auto
    then show ?thesis
    proof
      assume "c \<in> set (toDec (n div 10))"
      with False show ?thesis by (rule "1.IH")
    next
      assume "c = 48 + n mod 10"
      moreover have "n mod 10 \<le> 9" by presburger
      ultimately show ?thesis by (simp add: isAlnum_def)
    qed
  qed
qed

lemma toDec_nonempty: "toDec n \<noteq> []"
  by (subst toDec.simps) simp

lemma gidName_ok: "gidName i \<noteq> []" "c \<in> set (gidName i) \<Longrightarrow> isSafeChar c"
  by (auto simp: gidName_def str_def isSafeChar_def isAlnum_def dest: toDec_alnum)

lemma uniName_ok:
  "str ''uni'' @ padStart4 (toHex u) \<noteq> []"
  "c \<in> set (str ''uni'' @ padStart4 (toHex u)) \<Longrightarrow> isSafeChar c"
  by (auto simp: padStart4_def str_def isSafeChar_def isAlnum_def dest: toHex_alnum)

lemma sanitize_id: "(\<And>c. c \<in> set nm \<Longrightarrow> isSafeChar c) \<Longrightarrow> map (\<lambda>c. if isSafeChar c then c else 95) nm = nm"
  by (induction nm) simp_all

lemma sanitize_safe: "c \<in> set (map (\<lambda>c. if isSafeChar c then c else 95) nm) \<Longrightarrow> isSafeChar c"
  by (auto simp: isSafeChar_def)

lemma trim_Nil: "trim [] = []"
  by (simp add: trim_def)

lemma generatedName_ok:
  "generatedName i g \<noteq> []" "c \<in> set (generatedName i g) \<Longrightarrow> isSafeChar c"
  using gidName_ok uniName_ok by (auto simp: generatedName_def split: option.splits if_splits)

lemma ensureGlyphName_name:
  "name (ensureGlyphName i g) =
     Some (case name g of
             None \<Rightarrow> generatedName i g
           | Some nm \<Rightarrow> if trim nm = [] then generatedName i g
                        else map (\<lambda>c. if isSafeChar c then c else 95) nm)"
proof (cases "name g")
  case None
  then show ?thesis
    using generatedName_ok(1) [of i g] generatedName_ok(2)
    by (simp add: ensureGlyphName_def sanitize_id)
next
  case (Some nm)
  show ?thesis
  proof (cases "trim nm = []")
    case True
    with Some show ?thesis
      using generatedName_ok(1) [of i g] generatedName_ok(2)
      by (simp add: ensureGlyphName_def sanitize_id)
  next
    case False
    then have "nm \<noteq> []" using trim_Nil by auto
    with Some False show ?thesis
      by (simp add: ensureGlyphName_def)
  qed
qed

lemma ensureGlyphName_safe:
  "\<exists>nm. name (ensureGlyphName i g) = Some nm \<and> nm \<noteq> [] \<and> (\<forall>c \<in> set nm. isSafeChar c)"
proof (cases "name g")
  case None
  then show ?thesis using generatedName_ok(1) [of i g] generatedName_ok(2) by (simp add: ensureGlyphName_name)
next
  case (Some nm)
  show ?thesis
  proof (cases "trim nm = []")
    case True
    with Some show ?thesis using generatedName_ok(1) [of i g] generatedName_ok(2) by (simp add: ensureGlyphName_name)
  next
    case False
    then have "nm \<noteq> []" using trim_Nil by auto
    with Some False show ?thesis
      by (auto simp: ensureGlyphName_name isSafeChar_def)
  qed
qed

lemma ensureGlyphNames_nth:
  assumes "i < length (glyphs font)"
  shows "glyphs (ensureGlyphNames font) ! i = ensureGlyphName i (glyphs font ! i)"
proof -
  from assms have "glyphs font \<noteq> []" by auto
  with assms show ?thesis by (simp add: ensureGlyphNames_def nth_enumerate_eq)
qed

lemma length_ensureGlyphNames: "length (glyphs (ensureGlyphNames font)) = length (glyphs font)"
  by (simp add: ensureGlyphNames_def)



lemma fontNames_glyphs:
  "length (glyphs fontNames) = 4"
  "name (glyphs fontNames ! 0) = Some (str ''.notdef'')"
  "name (glyphs fontNames ! 1) = None" "unicode (glyphs fontNames ! 1) = Some 65"
  "name (glyphs fontNames ! Suc 0) = None" "unicode (glyphs fontNames ! Suc 0) = Some 65"
  "name (glyphs fontNames ! 2) = Some [32, 32]" "unicode (glyphs fontNames ! 2) = None"
  "name (glyphs fontNames ! 3) = Some (str ''a b'')"
  by (simp_all add: fontNames_def exFont_def exGlyph_def notdefGlyph_def)

lemma toHex_65: "toHex 65 = [52, 49]"
  by (simp add: toHex.simps hexDigit_def)

lemma padStart4_2: "padStart4 [a, b] = [48, 48, a, b]"
  by (simp add: padStart4_def numeral_2_eq_2)

lemma toDec_2: "toDec 2 = [50]"
  by (simp add: toDec.simps)

lemma names_eval:
  "trim (str ''.notdef'') \<noteq> []" "trim [32, 32] = []" "trim (str ''a b'') \<noteq> []"
  "map (\<lambda>c. if isSafeChar c then c else 95) (str ''.notdef'') = str ''.notdef''"
  "map (\<lambda>c. if isSafeChar c then c else 95) (str ''a b'') = str ''a_b''"
  "str ''uni'' @ padStart4 (toHex 65) = str ''uni0041''"
  "gidName 2 = str ''gid2''"
  by (simp_all add: trim_def isWhiteSpace_def isSafeChar_def isAlnum_def str_def
      toHex_65 padStart4_2 toDec_2 gidName_def)


section \<open>The postcondition of the mutation primitive\<close>



section \<open>Space immunity\<close>

text \<open>
  Claim C5. When the character resolves to a glyph that is the space (its name is
  \<open>space\<close>, its code point is 32, or its name contains \<open>space\<close>), \<^verbatim>\<open>setGlyphSB\<close>
  changes nothing, whatever the two targets are, \<^verbatim>\<open>null\<close> included: the font is the same
  afterwards, and so are the advance width and the path of that glyph.
\<close>

theorem setGlyphSB_space_immunity:
  assumes "charToGlyph font c = Some i"
    and "name (glyphs font ! i) = Some (str ''space'') \<or> unicode (glyphs font ! i) = Some 32 \<or>
         (\<exists>nm. name (glyphs font ! i) = Some nm \<and> str_includes nm (str ''space''))"
  shows "setGlyphSB bb font c lsb' rsb' = font \<and>
         advanceWidth (glyphs (setGlyphSB bb font c lsb' rsb') ! i) = advanceWidth (glyphs font ! i) \<and>
         path (glyphs (setGlyphSB bb font c lsb' rsb') ! i) = path (glyphs font ! i)"
proof -
  from assms(2) have "isSpace (glyphs font ! i)"
    by (simp add: isSpace_iff)
  with assms(1) have "setGlyphSB bb font c lsb' rsb' = font"
    by (rule setGlyphSB_space)
  then show ?thesis by simp
qed

theorem setGlyphSB_space_immunity_witness:
  "charToGlyph fontSpace [32] = Some 0 \<and>
   name (glyphs fontSpace ! 0) = Some (str ''space'') \<and>
   setGlyphSB pointsBox fontSpace [32] (Some (Num 50)) None = fontSpace \<and>
   advanceWidth (glyphs (setGlyphSB pointsBox fontSpace [32] (Some (Num 50)) None) ! 0) = Num 200 \<and>
   path (glyphs (setGlyphSB pointsBox fontSpace [32] (Some (Num 50)) None) ! 0) = boxPath"
proof -
  have h1: "charToGlyph fontSpace [32] = Some 0"
    by (simp add: fontSpace_def exFont_def charToGlyph_def)
  have h2: "name (glyphs fontSpace ! 0) = Some (str ''space'')"
    by (simp add: fontSpace_def exFont_def exGlyph_def)
  have g: "advanceWidth (glyphs fontSpace ! 0) = Num 200" "path (glyphs fontSpace ! 0) = boxPath"
    by (simp_all add: fontSpace_def exFont_def exGlyph_def)
  from setGlyphSB_space_immunity [OF h1 disjI1 [OF h2], of pointsBox "Some (Num 50)" None]
  show ?thesis using h1 h2 g by simp
qed

section \<open>The end-to-end scenario of Method A\<close>

text \<open>
  Claim C2, as amended. With the masters \<open>H = (80, 80)\<close>, \<open>O = (70, 70)\<close>,
  \<open>n = (40, 35)\<close>, \<open>o = (45, 45)\<close> and no overrides, let each of \<open>M\<close>, \<open>N\<close> and \<open>T\<close>
  resolve to a glyph that is not the space, is non-degenerate, and that no character
  treated by Method A after the letter's own rule resolves to. Then after
  \<^verbatim>\<open>applyTracyMethod\<close> the metrics query gives \<open>lsb = rsb = 92\<close> for \<open>M\<close> and for \<open>N\<close>, and
  \<open>lsb = rsb = 20\<close> for \<open>T\<close>.
\<close>

theorem tracy_scenario:
  assumes "translates bb"
    and "charToGlyph font (str ''M'') = Some iM" and "spaceable bb (glyphs font ! iM)"
    and "\<forall>d \<in> set (treatedAfter (str ''M'') (tracyCalls settingsScenario)). charToGlyph font d \<noteq> Some iM"
    and "charToGlyph font (str ''N'') = Some iN" and "spaceable bb (glyphs font ! iN)"
    and "\<forall>d \<in> set (treatedAfter (str ''N'') (tracyCalls settingsScenario)). charToGlyph font d \<noteq> Some iN"
    and "charToGlyph font (str ''T'') = Some iT" and "spaceable bb (glyphs font ! iT)"
    and "\<forall>d \<in> set (treatedAfter (str ''T'') (tracyCalls settingsScenario)). charToGlyph font d \<noteq> Some iT"
  shows "getCharMetrics bb (applyTracyMethod bb font settingsScenario) (str ''M'') = \<lparr>lsb = Num 92, rsb = Num 92\<rparr> \<and>
         getCharMetrics bb (applyTracyMethod bb font settingsScenario) (str ''N'') = \<lparr>lsb = Num 92, rsb = Num 92\<rparr> \<and>
         getCharMetrics bb (applyTracyMethod bb font settingsScenario) (str ''T'') = \<lparr>lsb = Num 20, rsb = Num 20\<rparr>"
proof -
  have l: "lastFor (str ''M'') (tracyCalls settingsScenario) = Some (Some (Num (of_int 92)), Some (Num (of_int 92)))"
    "lastFor (str ''N'') (tracyCalls settingsScenario) = Some (Some (Num (of_int 92)), Some (Num (of_int 92)))"
    "lastFor (str ''T'') (tracyCalls settingsScenario) = Some (Some (Num (of_int 20)), Some (Num (of_int 20)))"
    by (simp_all add: lastFor_scenario)
  from run_final_metrics [OF assms(1,2,3) l(1) assms(4) assms(2)]
       run_final_metrics [OF assms(1) assms(5,6) l(2) assms(7) assms(5)]
       run_final_metrics [OF assms(1) assms(8,9) l(3) assms(10) assms(8)]
  show ?thesis by (simp add: applyTracyMethod_run)
qed

text \<open>The scenario on a font where the three letters have glyphs of their own.\<close>

theorem tracy_scenario_witness:
  "translates pointsBox \<and>
   charToGlyph fontMNT (str ''M'') = Some 0 \<and> spaceable pointsBox (glyphs fontMNT ! 0) \<and>
   charToGlyph fontMNT (str ''N'') = Some 1 \<and> spaceable pointsBox (glyphs fontMNT ! 1) \<and>
   charToGlyph fontMNT (str ''T'') = Some 2 \<and> spaceable pointsBox (glyphs fontMNT ! 2) \<and>
   getCharMetrics pointsBox (applyTracyMethod pointsBox fontMNT settingsScenario) (str ''M'') = \<lparr>lsb = Num 92, rsb = Num 92\<rparr> \<and>
   getCharMetrics pointsBox (applyTracyMethod pointsBox fontMNT settingsScenario) (str ''N'') = \<lparr>lsb = Num 92, rsb = Num 92\<rparr> \<and>
   getCharMetrics pointsBox (applyTracyMethod pointsBox fontMNT settingsScenario) (str ''T'') = \<lparr>lsb = Num 20, rsb = Num 20\<rparr>"
proof -
  have c: "charToGlyph fontMNT d = (if d = [77] then Some 0 else if d = [78] then Some 1
      else if d = [84] then Some 2 else None)" for d
    by (simp add: fontMNT_def charToGlyph_def)
  have r: "charToGlyph fontMNT (str ''M'') = Some 0" "charToGlyph fontMNT (str ''N'') = Some 1"
    "charToGlyph fontMNT (str ''T'') = Some 2"
    by (simp_all add: c str_def)
  have s: "spaceable pointsBox (glyphs fontMNT ! 0)" "spaceable pointsBox (glyphs fontMNT ! 1)"
    "spaceable pointsBox (glyphs fontMNT ! 2)"
    by (simp_all add: fontMNT_def spaceable_exGlyph isSpace_exGlyph str_def)
  have a: "\<forall>d \<in> set (treatedAfter (str ''M'') cs). charToGlyph fontMNT d \<noteq> Some 0"
    "\<forall>d \<in> set (treatedAfter (str ''N'') cs). charToGlyph fontMNT d \<noteq> Some 1"
    "\<forall>d \<in> set (treatedAfter (str ''T'') cs). charToGlyph fontMNT d \<noteq> Some 2" for cs
    using notin_treatedAfter [of "str ''M''" cs] notin_treatedAfter [of "str ''N''" cs]
      notin_treatedAfter [of "str ''T''" cs]
    by (auto simp: c str_def)
  from tracy_scenario [OF translates_pointsBox r(1) s(1) a(1) r(2) s(2) a(2) r(3) s(3) a(3)]
  show ?thesis using translates_pointsBox r s by simp
qed

text \<open>
  Claim C2 as stated fails where two characters share a glyph. In the all-capitals font
  the letters \<open>M\<close>, \<open>N\<close>, \<open>T\<close> have non-degenerate glyphs other than the space, yet the
  rule for \<open>m\<close>, which comes later, moves the glyph of \<open>M\<close> to \<open>(40, 35)\<close>.
\<close>

theorem tracy_scenario_counterexample:
  "charToGlyph fontCaps (str ''M'') = Some 0 \<and> spaceable pointsBox (glyphs fontCaps ! 0) \<and>
   charToGlyph fontCaps (str ''N'') = Some 1 \<and> spaceable pointsBox (glyphs fontCaps ! 1) \<and>
   charToGlyph fontCaps (str ''T'') = Some 2 \<and> spaceable pointsBox (glyphs fontCaps ! 2) \<and>
   getCharMetrics pointsBox (applyTracyMethod pointsBox fontCaps settingsScenario) (str ''M'') =
     \<lparr>lsb = Num 40, rsb = Num 35\<rparr>"
proof -
  have c: "charToGlyph fontCaps d = Some 0 \<longleftrightarrow> d = [77] \<or> d = [109]" for d
    by (simp add: fontCaps_def charToGlyph_def)
  have r: "charToGlyph fontCaps (str ''M'') = Some 0" "charToGlyph fontCaps (str ''m'') = Some 0"
    "charToGlyph fontCaps (str ''N'') = Some 1" "charToGlyph fontCaps (str ''T'') = Some 2"
    by (simp_all add: fontCaps_def charToGlyph_def str_def)
  have s: "spaceable pointsBox (glyphs fontCaps ! 0)" "spaceable pointsBox (glyphs fontCaps ! 1)"
    "spaceable pointsBox (glyphs fontCaps ! 2)"
    by (simp_all add: fontCaps_def spaceable_exGlyph isSpace_exGlyph str_def)
  let ?rules = "tracyRules settingsScenario"
  let ?tail = "concat (map ruleCalls (drop 41 ?rules))"
  have split: "tracyCalls settingsScenario = concat (map ruleCalls (take 41 ?rules)) @ ?tail"
    unfolding tracyCalls_scenario by (simp only: map_append [symmetric] concat_append [symmetric] append_take_drop_id)
  have letters: "fst ` set (drop 41 ?rules) = set (map fst (drop 41 ?rules))" by simp
  have m_in: "str ''m'' \<in> fst ` set ?tail"
    unfolding chars_ruleCalls letters tracy_tail by simp
  have M_out: "str ''M'' \<notin> fst ` set ?tail"
    unfolding chars_ruleCalls letters tracy_tail
    by (auto simp: str_def dest: variant_high)
  have "treatedAfter (str ''m'') (tracyCalls settingsScenario) = treatedAfter (str ''m'') ?tail"
    unfolding split using m_in by (simp only: treatedAfter_append if_True)
  then have "set (treatedAfter (str ''m'') (tracyCalls settingsScenario)) \<subseteq> fst ` set ?tail"
    by (simp only: treatedAfter_subset)
  with M_out have "str ''M'' \<notin> set (treatedAfter (str ''m'') (tracyCalls settingsScenario))" by blast
  then have a: "\<forall>d \<in> set (treatedAfter (str ''m'') (tracyCalls settingsScenario)). charToGlyph fontCaps d \<noteq> Some 0"
    using notin_treatedAfter [of "str ''m''" "tracyCalls settingsScenario"] by (auto simp: c str_def)
  have l: "lastFor (str ''m'') (tracyCalls settingsScenario) = Some (Some (Num (of_int 40)), Some (Num (of_int 35)))"
    by (simp add: lastFor_scenario)
  from run_final_metrics [OF translates_pointsBox r(2) s(1) l a r(1)] r s
  show ?thesis by (simp add: applyTracyMethod_run)
qed

section \<open>Override precedence\<close>

text \<open>
  Claim C3, as amended. Let the override map give the character \<open>c\<close> the pair \<open>(L, R)\<close>,
  both sides numbers, and let \<open>c\<close> resolve to a glyph that is not the space and is
  non-degenerate. In Method A, if no override key after \<open>c\<close> resolves to that glyph, and in
  Method B, if neither an override key after \<open>c\<close> nor a master letter that is re-asserted
  (one without an override) resolves to that glyph, the glyph ends with the override: its
  left bearing within the primitive's epsilon of \<open>L\<close>, its right bearing \<open>R\<close>. This holds
  whatever the method derives for \<open>c\<close>, and in Method B also when \<open>c\<close> is a master letter,
  whose re-assertion is then skipped.
\<close>

theorem override_precedence:
  assumes "translates bb"
    and "map_of (overrides s) c = Some (Some (Num L), Some (Num R))"
    and "charToGlyph font c = Some i" and "spaceable bb (glyphs font ! i)"
  shows "((\<forall>d \<in> set (treatedAfter c (overrideCalls (overrides s))). charToGlyph font d \<noteq> Some i) \<longrightarrow>
            near (1 / 1000) (lsbOf bb (glyphs (applyTracyMethod bb font s) ! i)) L \<and>
            rsbOf bb (glyphs (applyTracyMethod bb font s) ! i) = Num R) \<and>
         ((\<forall>d \<in> set (treatedAfter c (overrideCalls (overrides s)) @ map fst (masterCalls s)).
              charToGlyph font d \<noteq> Some i) \<longrightarrow>
            near (1 / 1000) (lsbOf bb (glyphs (applySousaMethod bb font s) ! i)) L \<and>
            rsbOf bb (glyphs (applySousaMethod bb font s) ! i) = Num R)"
proof (intro conjI impI)
  assume a: "\<forall>d \<in> set (treatedAfter c (overrideCalls (overrides s))). charToGlyph font d \<noteq> Some i"
  then have "\<forall>d \<in> set (treatedAfter c (tracyCalls s)). charToGlyph font d \<noteq> Some i"
    by (simp only: override_last(2) [OF assms(2)])
  from run_final [OF assms(1,3,4) override_last(1) [OF assms(2)] this]
  have "hasBearings bb (glyphs (applyTracyMethod bb font s) ! i) L R"
    by (simp add: applyTracyMethod_run)
  then show "near (1 / 1000) (lsbOf bb (glyphs (applyTracyMethod bb font s) ! i)) L"
    and "rsbOf bb (glyphs (applyTracyMethod bb font s) ! i) = Num R"
    by (simp_all add: hasBearings_def)
next
  assume a: "\<forall>d \<in> set (treatedAfter c (overrideCalls (overrides s)) @ map fst (masterCalls s)).
               charToGlyph font d \<noteq> Some i"
  then have "\<forall>d \<in> set (treatedAfter c (sousaCalls s)). charToGlyph font d \<noteq> Some i"
    by (simp only: override_last(4) [OF assms(2)])
  from run_final [OF assms(1,3,4) override_last(3) [OF assms(2)] this]
  have "hasBearings bb (glyphs (applySousaMethod bb font s) ! i) L R"
    by (simp add: applySousaMethod_run)
  then show "near (1 / 1000) (lsbOf bb (glyphs (applySousaMethod bb font s) ! i)) L"
    and "rsbOf bb (glyphs (applySousaMethod bb font s) ! i) = Num R"
    by (simp_all add: hasBearings_def)
qed

text \<open>An override for \<open>N\<close> on the font where each letter has a glyph of its own.\<close>

theorem override_precedence_witness:
  "translates pointsBox \<and>
   map_of (overrides settingsOverride) (str ''N'') = Some (Some (Num 10), Some (Num 10)) \<and>
   charToGlyph fontMNT (str ''N'') = Some 1 \<and> spaceable pointsBox (glyphs fontMNT ! 1) \<and>
   near (1 / 1000) (lsbOf pointsBox (glyphs (applyTracyMethod pointsBox fontMNT settingsOverride) ! 1)) 10 \<and>
   rsbOf pointsBox (glyphs (applyTracyMethod pointsBox fontMNT settingsOverride) ! 1) = Num 10 \<and>
   near (1 / 1000) (lsbOf pointsBox (glyphs (applySousaMethod pointsBox fontMNT settingsOverride) ! 1)) 10 \<and>
   rsbOf pointsBox (glyphs (applySousaMethod pointsBox fontMNT settingsOverride) ! 1) = Num 10"
proof -
  have r: "charToGlyph fontMNT (str ''N'') = Some 1"
    by (simp add: charToGlyph_fontMNT str_def)
  have a: "\<forall>d \<in> set (treatedAfter (str ''N'') (overrideCalls (overrides settingsOverride))).
             charToGlyph fontMNT d \<noteq> Some 1"
    using notin_treatedAfter [of "str ''N''" "overrideCalls (overrides settingsOverride)"]
    by (auto simp: charToGlyph_fontMNT str_def)
  have b: "\<forall>d \<in> set (treatedAfter (str ''N'') (overrideCalls (overrides settingsOverride)) @
                       map fst (masterCalls settingsOverride)).
             charToGlyph fontMNT d \<noteq> Some 1"
    using a by (simp add: masterCalls_N charToGlyph_fontMNT)
  from override_precedence [OF translates_pointsBox overrides_N r spaceable_fontMNT(2)] a b
  show ?thesis using translates_pointsBox overrides_N r spaceable_fontMNT(2) by blast
qed

text \<open>
  Claim C3 as stated fails in Method B on the all-capitals font: the override \<open>(10, 10)\<close>
  for \<open>N\<close> differs from the derived \<open>(80, 80)\<close>, but the master \<open>n\<close>, which has no
  override, is re-asserted afterwards on the same glyph, and \<open>N\<close> ends with \<open>(40, 35)\<close>.
\<close>

theorem override_precedence_counterexample:
  "map_of (overrides settingsOverride) (str ''N'') = Some (Some (Num 10), Some (Num 10)) \<and>
   map_of (sousaRules settingsOverride) (str ''N'') = Some (Num 80, Num 80) \<and>
   charToGlyph fontCaps (str ''N'') = Some 1 \<and> spaceable pointsBox (glyphs fontCaps ! 1) \<and>
   getCharMetrics pointsBox (applySousaMethod pointsBox fontCaps settingsOverride) (str ''N'') =
     \<lparr>lsb = Num 40, rsb = Num 35\<rparr>"
proof -
  have r: "charToGlyph fontCaps (str ''N'') = Some 1" "charToGlyph fontCaps [110] = Some 1"
    by (simp_all add: charToGlyph_fontCaps str_def)
  let ?ms = "masterCalls settingsOverride"
  have lm: "lastFor [110] ?ms = Some (Some (Num 40), Some (Num 35))"
    by (simp add: masterCalls_N lastFor_def)
  have l: "lastFor [110] (sousaCalls settingsOverride) = Some (Some (Num (of_int 40)), Some (Num (of_int 35)))"
    by (simp add: sousaCalls_def lastFor_append lm)
  have "[110] \<in> fst ` set ?ms" by (simp add: masterCalls_N)
  then have "[110] \<in> fst ` set (overrideCalls (overrides settingsOverride) @ ?ms)" by auto
  then have "treatedAfter [110] (sousaCalls settingsOverride) =
             treatedAfter [110] (overrideCalls (overrides settingsOverride) @ ?ms)"
    unfolding sousaCalls_def by (simp only: treatedAfter_append if_True)
  also have "\<dots> = treatedAfter [110] ?ms"
    using \<open>[110] \<in> fst ` set ?ms\<close> by (simp only: treatedAfter_append if_True)
  also have "\<dots> = [[111], [72], [79]]"
    by (simp add: masterCalls_N treatedAfter_def)
  finally have a: "\<forall>d \<in> set (treatedAfter [110] (sousaCalls settingsOverride)). charToGlyph fontCaps d \<noteq> Some 1"
    by (simp add: charToGlyph_fontCaps)
  from run_final_metrics [OF translates_pointsBox r(2) spaceable_fontCaps(2) l a r(1)]
  show ?thesis using overrides_N sousa_rule_N r(1) spaceable_fontCaps(2)
    by (simp add: applySousaMethod_run)
qed

section \<open>Diacritic inheritance\<close>




section \<open>The per-character metrics query is total\<close>



section \<open>The metrics extractor's fallbacks\<close>



section \<open>The sanitizer\<close>



section \<open>Glyph names after export preparation\<close>

text \<open>
  Claim C7, as amended. After \<^verbatim>\<open>ensureGlyphNames\<close> every glyph has a name that is not empty
  and consists of letters, digits, underscores and periods only. The name of a glyph
  whose name was missing or blank is \<open>uni\<close> followed by the code point in at least four
  upper-case hexadecimal digits when the glyph has a code point other than 0, and \<open>gid\<close>
  followed by the glyph's index otherwise; any other name is kept, each character outside
  the four kinds replaced by an underscore.
\<close>

theorem ensureGlyphNames_names:
  "(\<forall>g \<in> set (glyphs (ensureGlyphNames font)).
      \<exists>nm. name g = Some nm \<and> nm \<noteq> [] \<and> (\<forall>c \<in> set nm. isAlnum c \<or> c = 95 \<or> c = 46)) \<and>
   (\<forall>i<length (glyphs font).
      name (glyphs (ensureGlyphNames font) ! i) =
        Some (case name (glyphs font ! i) of
                None \<Rightarrow> generatedName i (glyphs font ! i)
              | Some nm \<Rightarrow> if trim nm = [] then generatedName i (glyphs font ! i)
                           else map (\<lambda>c. if isSafeChar c then c else 95) nm))"
proof (intro conjI ballI allI impI)
  fix g
  assume "g \<in> set (glyphs (ensureGlyphNames font))"
  then obtain i where i: "i < length (glyphs (ensureGlyphNames font))"
    and g: "g = glyphs (ensureGlyphNames font) ! i"
    by (auto simp: in_set_conv_nth)
  from i have "i < length (glyphs font)" by (simp add: length_ensureGlyphNames)
  then have "g = ensureGlyphName i (glyphs font ! i)"
    by (simp add: g ensureGlyphNames_nth)
  with ensureGlyphName_safe [of i "glyphs font ! i"]
  show "\<exists>nm. name g = Some nm \<and> nm \<noteq> [] \<and> (\<forall>c \<in> set nm. isAlnum c \<or> c = 95 \<or> c = 46)"
    by (auto simp: isSafeChar_def)
next
  fix i
  assume "i < length (glyphs font)"
  then show "name (glyphs (ensureGlyphNames font) ! i) =
      Some (case name (glyphs font ! i) of
              None \<Rightarrow> generatedName i (glyphs font ! i)
            | Some nm \<Rightarrow> if trim nm = [] then generatedName i (glyphs font ! i)
                         else map (\<lambda>c. if isSafeChar c then c else 95) nm)"
    by (simp add: ensureGlyphNames_nth ensureGlyphName_name)
qed

text \<open>Four glyphs: a name with a period, no name, a blank name, a name with a space.\<close>

theorem ensureGlyphNames_names_witness:
  "length (glyphs fontNames) = 4 \<and>
   name (glyphs (ensureGlyphNames fontNames) ! 0) = Some (str ''.notdef'') \<and>
   name (glyphs (ensureGlyphNames fontNames) ! 1) = Some (str ''uni0041'') \<and>
   name (glyphs (ensureGlyphNames fontNames) ! 2) = Some (str ''gid2'') \<and>
   name (glyphs (ensureGlyphNames fontNames) ! 3) = Some (str ''a_b'')"
proof -
  note T = ensureGlyphNames_names [of fontNames, THEN conjunct2, rule_format]
  have l: "0 < length (glyphs fontNames)" "1 < length (glyphs fontNames)"
    "2 < length (glyphs fontNames)" "3 < length (glyphs fontNames)"
    by (simp_all add: fontNames_glyphs)
  from T [OF l(1)] T [OF l(2)] T [OF l(3)] T [OF l(4)]
  show ?thesis
    by (simp add: fontNames_glyphs names_eval generatedName_def)
qed

text \<open>
  Claim C7 as stated fails: the pattern of the code leaves the period alone, so the name
  \<open>.notdef\<close> stays as it is, and the period (46) is neither a letter, a digit nor an
  underscore.
\<close>

theorem ensureGlyphNames_names_counterexample:
  "name (glyphs (ensureGlyphNames fontNames) ! 0) = Some (str ''.notdef'') \<and>
   46 \<in> set (str ''.notdef'') \<and> \<not> isAlnum 46 \<and> (46::nat) \<noteq> 95"
proof -
  have "0 < length (glyphs fontNames)" by (simp add: fontNames_glyphs)
  then have "glyphs (ensureGlyphNames fontNames) ! 0 = ensureGlyphName 0 (glyphs fontNames ! 0)"
    by (rule ensureGlyphNames_nth)
  then have "name (glyphs (ensureGlyphNames fontNames) ! 0) = Some (str ''.notdef'')"
    by (simp add: ensureGlyphName_name fontNames_glyphs names_eval)
  then show ?thesis by (simp add: isAlnum_def str_def)
qed

section \<open>An empty serialization\<close>

text \<open>
  Claim C8, as amended. When the serializer gives an empty buffer for the prepared font,
  the error thrown inside \<^verbatim>\<open>createFontUrl\<close> is caught there: the caller receives the empty
  string, which is no URL and no binary, and no exception. No exception reaches the caller
  of \<^verbatim>\<open>createFontUrl\<close> whatever the serializer does.
\<close>

theorem createFontUrl_empty_buffer:
  "(toArrayBuffer (prepareExport now font familyName) = Inr [] \<longrightarrow>
      createFontUrl_try toArrayBuffer createObjectURL (prepareExport now font familyName) =
        Inl (Error (str ''Generated font buffer is empty'')) \<and>
      snd (createFontUrl toArrayBuffer createObjectURL now font familyName) = Inr []) \<and>
   (\<forall>e. snd (createFontUrl toArrayBuffer createObjectURL now font familyName) \<noteq> Inl e)"
proof (intro conjI impI allI)
  assume "toArrayBuffer (prepareExport now font familyName) = Inr []"
  then show "createFontUrl_try toArrayBuffer createObjectURL (prepareExport now font familyName) =
      Inl (Error (str ''Generated font buffer is empty''))"
    and "snd (createFontUrl toArrayBuffer createObjectURL now font familyName) = Inr []"
    by (simp_all add: createFontUrl_def createFontUrl_try_def Let_def)
next
  fix e
  show "snd (createFontUrl toArrayBuffer createObjectURL now font familyName) \<noteq> Inl e"
    by (simp add: createFontUrl_def Let_def split: sum.splits)
qed

text \<open>A serializer that returns an empty buffer, on the font with the letter \<open>A\<close>.\<close>

theorem createFontUrl_empty_buffer_witness:
  "emptySerializer (prepareExport 0 fontA (str ''Tracy'')) = Inr [] \<and>
   createFontUrl_try emptySerializer blobUrl (prepareExport 0 fontA (str ''Tracy'')) =
     Inl (Error (str ''Generated font buffer is empty'')) \<and>
   snd (createFontUrl emptySerializer blobUrl 0 fontA (str ''Tracy'')) = Inr []"
proof -
  have h: "emptySerializer (prepareExport 0 fontA (str ''Tracy'')) = Inr []"
    by (simp add: emptySerializer_def)
  from createFontUrl_empty_buffer [of emptySerializer 0 fontA "str ''Tracy''" blobUrl] h
  show ?thesis by blast
qed

text \<open>
  Claim C8 as stated fails: with the empty buffer the caller of \<^verbatim>\<open>createFontUrl\<close> gets a
  value, the empty string, and not the error.
\<close>

theorem createFontUrl_empty_buffer_counterexample:
  "emptySerializer (prepareExport 0 fontA (str ''Tracy'')) = Inr [] \<and>
   snd (createFontUrl emptySerializer blobUrl 0 fontA (str ''Tracy'')) = Inr [] \<and>
   snd (createFontUrl emptySerializer blobUrl 0 fontA (str ''Tracy'')) \<noteq>
     Inl (Error (str ''Generated font buffer is empty''))"
  by (simp add: createFontUrl_def createFontUrl_try_def emptySerializer_def Let_def)

end
